theory Spec2Isabelle
  imports Main "HOL-Library.Char_ord" "HOL-Library.List_Lexorder"
begin

section \<open>discuss.ts: the review comment store and its reconciliation\<close>

text \<open>
  The development follows \<^verbatim>\<open>discuss.ts\<close>. JavaScript strings are modelled as
  \<^typ>\<open>string\<close> holding the UTF-8 bytes of the text. The two string operations the
  modelled code relies on, splitting at the line feed and \<^verbatim>\<open>includes\<close> with a
  well-formed marker, give the same answer on the UTF-8 bytes as on the UTF-16 units
  of well-formed text.
\<close>

subsection \<open>Strings\<close>

fun startsWith :: "string \<Rightarrow> string \<Rightarrow> bool" where
  "startsWith s [] = True"
| "startsWith [] (c # cs) = False"
| "startsWith (x # xs) (c # cs) = (x = c \<and> startsWith xs cs)"

text \<open>\<^verbatim>\<open>s.includes(m)\<close>: \<open>m\<close> occurs in \<open>s\<close> as a contiguous substring.\<close>

fun includes_str :: "string \<Rightarrow> string \<Rightarrow> bool" where
  "includes_str [] m = (m = [])"
| "includes_str (x # xs) m = (startsWith (x # xs) m \<or> includes_str xs m)"

text \<open>\<^verbatim>\<open>body.split("\n")[0] || ""\<close>: the text before the first line feed.\<close>

definition firstLine :: "string \<Rightarrow> string" where
  "firstLine body = takeWhile (\<lambda>c. c \<noteq> CHR 0x0A) body"

subsection \<open>Constants\<close>

text \<open>
  The marker tables, in the order \<^verbatim>\<open>Object.entries\<close> enumerates them (insertion
  order). The emoji are written as their UTF-8 bytes.
\<close>

definition PRIORITY_MARKERS :: "(string \<times> string) list" where
  "PRIORITY_MARKERS =
     [([CHR 0xE2, CHR 0x9A, CHR 0xA0, CHR 0xEF, CHR 0xB8, CHR 0x8F] @ '' Potential issue'', ''issue''),
      ([CHR 0xF0, CHR 0x9F, CHR 0x9B, CHR 0xA0, CHR 0xEF, CHR 0xB8, CHR 0x8F] @ '' Refactor suggestion'',
         ''refactor''),
      ([CHR 0xF0, CHR 0x9F, CHR 0xA7, CHR 0xB9] @ '' Nitpick'', ''nitpick'')]"

definition SEVERITY_MARKERS :: "(string \<times> string) list" where
  "SEVERITY_MARKERS =
     [([CHR 0xF0, CHR 0x9F, CHR 0x94, CHR 0xB4] @ '' Critical'', ''critical''),
      ([CHR 0xF0, CHR 0x9F, CHR 0x9F, CHR 0xA0] @ '' Major'', ''major''),
      ([CHR 0xF0, CHR 0x9F, CHR 0x9F, CHR 0xA1] @ '' Minor'', ''minor''),
      ([CHR 0xF0, CHR 0x9F, CHR 0x94, CHR 0xB5] @ '' Trivial'', ''trivial'')]"

subsection \<open>Parsing\<close>

text \<open>
  One marker loop of \<^verbatim>\<open>parseComment\<close>: the entries are tried in table order and
  the loop breaks at the first marker the line includes; \<open>current\<close> is the value the
  variable holds when no entry matches.
\<close>

fun scanMarkers :: "(string \<times> string) list \<Rightarrow> string \<Rightarrow> string \<Rightarrow> string" where
  "scanMarkers [] line1 current = current"
| "scanMarkers ((marker, val) # rest) line1 current =
     (if includes_str line1 marker then val else scanMarkers rest line1 current)"

record parsed =
  parsed_priority :: string
  parsed_severity :: string

definition parseComment :: "string \<Rightarrow> parsed" where
  "parseComment body =
     (let line1 = firstLine body;
          priority = scanMarkers PRIORITY_MARKERS line1 ''unknown'';
          severity = scanMarkers SEVERITY_MARKERS line1 ''unknown''
      in \<lparr>parsed_priority = priority, parsed_severity = severity\<rparr>)"

subsection \<open>The store\<close>

text \<open>
  A row of the \<^verbatim>\<open>comments\<close> table. The three \<^verbatim>\<open>INTEGER NOT NULL\<close> flags only
  ever receive 0 or 1 and are booleans here; the nullable columns are options.
  \<^verbatim>\<open>snoozed_reply_count\<close> is declared without \<^verbatim>\<open>NOT NULL\<close>, so it is an option
  too.
\<close>

record comment_row =
  id' :: int
  path :: string
  line :: "int option"
  body :: string
  priority :: string
  severity :: string
  outdated :: bool
  created_at :: string
  updated_at :: string
  user :: string
  first_seen :: string
  thread_id :: "string option"
  github_resolved :: bool
  resolved_commit :: "string option"
  waiting_reply :: bool
  snoozed_reply_count :: "int option"
  notes' :: "string option"

record reply_row =
  reply_id :: int
  in_reply_to_id :: int
  reply_body :: string
  reply_user :: string
  reply_created_at :: string
  reply_updated_at :: string

text \<open>
  The database: both tables as lists of rows. The order of a table is the order in
  which a \<^verbatim>\<open>SELECT\<close> without \<^verbatim>\<open>ORDER BY\<close> returns its rows; nothing below
  depends on it.
\<close>

record store =
  comments :: "comment_row list"
  replies :: "reply_row list"

text \<open>\<^verbatim>\<open>id INTEGER PRIMARY KEY\<close>: no two rows of a table share an id.\<close>

definition primary_key_ok :: "store \<Rightarrow> bool" where
  "primary_key_ok db = (distinct (map id' (comments db)) \<and> distinct (map reply_id (replies db)))"

text \<open>A comment of the REST listing (the fields the tool reads).\<close>

record api_comment =
  api_id :: int
  api_path :: string
  api_line :: "int option"
  api_body :: string
  api_created_at :: string
  api_updated_at :: string
  api_user_login :: string
  api_in_reply_to_id :: "int option"

record ThreadInfo =
  threadId :: string
  isResolved :: bool
  isOutdated :: bool

subsection \<open>Data operations\<close>

text \<open>\<^verbatim>\<open>SELECT * FROM comments WHERE id = ?\<close>\<close>

definition getComment :: "store \<Rightarrow> int \<Rightarrow> comment_row option" where
  "getComment db i = find (\<lambda>r. id' r = i) (comments db)"

text \<open>\<^verbatim>\<open>SELECT COUNT(*) FROM replies WHERE in_reply_to_id = ?\<close>\<close>

definition getReplyCount :: "store \<Rightarrow> int \<Rightarrow> int" where
  "getReplyCount db commentId = int (length (filter (\<lambda>r. in_reply_to_id r = commentId) (replies db)))"

text \<open>\<^verbatim>\<open>SELECT id, snoozed_reply_count FROM comments WHERE waiting_reply = 1\<close>\<close>

definition getSnoozedComments :: "store \<Rightarrow> (int \<times> int option) list" where
  "getSnoozedComments db =
     map (\<lambda>r. (id' r, snoozed_reply_count r)) (filter waiting_reply (comments db))"

text \<open>
  \<^verbatim>\<open>INSERT OR REPLACE\<close>: a row with the same primary key is deleted, then the new
  row is inserted.
\<close>

definition insertOrReplaceComment :: "comment_row \<Rightarrow> comment_row list \<Rightarrow> comment_row list" where
  "insertOrReplaceComment row rows = row # filter (\<lambda>r. id' r \<noteq> id' row) rows"

definition insertOrReplaceReply :: "reply_row \<Rightarrow> reply_row list \<Rightarrow> reply_row list" where
  "insertOrReplaceReply row rows = row # filter (\<lambda>r. reply_id r \<noteq> reply_id row) rows"

text \<open>
  \<^verbatim>\<open>upsertComment\<close>. The sub-selects of the statement read the table as it is before
  the replacement: \<^verbatim>\<open>COALESCE\<close> takes the stored value when the row exists (and, for
  \<^verbatim>\<open>snoozed_reply_count\<close>, is not \<^verbatim>\<open>NULL\<close>) and the default otherwise;
  \<^verbatim>\<open>resolved_commit\<close> and \<^verbatim>\<open>notes\<close> are \<^verbatim>\<open>NULL\<close> when there is no row.
  A missing \<^verbatim>\<open>threadInfo\<close> stands for
  \<^verbatim>\<open>{ threadId: null, isResolved: false, isOutdated: false }\<close>.
  The result is the new store and \<^verbatim>\<open>wasNew\<close>.
\<close>

definition upsertComment :: "api_comment \<Rightarrow> ThreadInfo option \<Rightarrow> string \<Rightarrow> store \<Rightarrow> store \<times> bool" where
  "upsertComment comment threadInfo now db =
     (let p = parseComment (api_body comment);
          existing = getComment db (api_id comment);
          row = \<lparr> id' = api_id comment,
                  path = api_path comment,
                  line = api_line comment,
                  body = api_body comment,
                  priority = parsed_priority p,
                  severity = parsed_severity p,
                  outdated = (case threadInfo of None \<Rightarrow> False | Some info \<Rightarrow> isOutdated info),
                  created_at = api_created_at comment,
                  updated_at = api_updated_at comment,
                  user = api_user_login comment,
                  first_seen = (case existing of None \<Rightarrow> now | Some old \<Rightarrow> first_seen old),
                  thread_id = (case threadInfo of None \<Rightarrow> None | Some info \<Rightarrow> Some (threadId info)),
                  github_resolved = (case threadInfo of None \<Rightarrow> False | Some info \<Rightarrow> isResolved info),
                  resolved_commit = (case existing of None \<Rightarrow> None | Some old \<Rightarrow> resolved_commit old),
                  waiting_reply = (case existing of None \<Rightarrow> False | Some old \<Rightarrow> waiting_reply old),
                  snoozed_reply_count =
                    (case existing of None \<Rightarrow> Some 0
                     | Some old \<Rightarrow> (case snoozed_reply_count old of None \<Rightarrow> Some 0 | Some n \<Rightarrow> Some n)),
                  notes' = (case existing of None \<Rightarrow> None | Some old \<Rightarrow> notes' old) \<rparr>
      in (db\<lparr>comments := insertOrReplaceComment row (comments db)\<rparr>, existing = None))"

text \<open>
  \<^verbatim>\<open>upsertReply\<close>. The column \<^verbatim>\<open>in_reply_to_id\<close> is \<^verbatim>\<open>NOT NULL\<close>: for a
  comment without a parent the statement raises a constraint error (\<open>None\<close>) and
  writes nothing.
\<close>

definition upsertReply :: "api_comment \<Rightarrow> store \<Rightarrow> store option" where
  "upsertReply reply db =
     (case api_in_reply_to_id reply of
        None \<Rightarrow> None
      | Some parent \<Rightarrow>
          Some (db\<lparr>replies := insertOrReplaceReply
                 \<lparr> reply_id = api_id reply,
                   in_reply_to_id = parent,
                   reply_body = api_body reply,
                   reply_user = api_user_login reply,
                   reply_created_at = api_created_at reply,
                   reply_updated_at = api_updated_at reply \<rparr> (replies db)\<rparr>))"

text \<open>\<^verbatim>\<open>UPDATE comments SET waiting_reply = 0, snoozed_reply_count = 0 WHERE id = ?\<close>\<close>

definition clearSnooze :: "int \<Rightarrow> store \<Rightarrow> store" where
  "clearSnooze i db =
     db\<lparr>comments := map (\<lambda>r. if id' r = i then r\<lparr>waiting_reply := False, snoozed_reply_count := Some 0\<rparr> else r)
                        (comments db)\<rparr>"

text \<open>\<^verbatim>\<open>UPDATE comments SET waiting_reply = 1, snoozed_reply_count = ? WHERE id = ?\<close>\<close>

definition setSnooze :: "int \<Rightarrow> int \<Rightarrow> store \<Rightarrow> store" where
  "setSnooze i replyCount db =
     db\<lparr>comments := map (\<lambda>r. if id' r = i then r\<lparr>waiting_reply := True, snoozed_reply_count := Some replyCount\<rparr> else r)
                        (comments db)\<rparr>"

text \<open>
  The number a JavaScript comparison reads from a \<^verbatim>\<open>snoozed_reply_count\<close> cell:
  \<^verbatim>\<open>null\<close> converts to 0.
\<close>

definition toNumber :: "int option \<Rightarrow> int" where
  "toNumber v = (case v of None \<Rightarrow> 0 | Some n \<Rightarrow> n)"

text \<open>
  The loop of \<^verbatim>\<open>processAutoUnsnooze\<close> over the rows selected before the loop
  starts; the result is the store and \<^verbatim>\<open>unsnoozedCount\<close>.
\<close>

fun autoUnsnoozeLoop :: "(int \<times> int option) list \<Rightarrow> store \<Rightarrow> nat \<Rightarrow> store \<times> nat" where
  "autoUnsnoozeLoop [] db unsnoozedCount = (db, unsnoozedCount)"
| "autoUnsnoozeLoop ((i, snoozedCount) # rest) db unsnoozedCount =
     (if getReplyCount db i > toNumber snoozedCount
      then autoUnsnoozeLoop rest (clearSnooze i db) (unsnoozedCount + 1)
      else autoUnsnoozeLoop rest db unsnoozedCount)"

definition processAutoUnsnooze :: "store \<Rightarrow> store \<times> nat" where
  "processAutoUnsnooze db = autoUnsnoozeLoop (getSnoozedComments db) db 0"

text \<open>
  \<^verbatim>\<open>updateCommentField\<close>. The column name is spliced into the statement; the three
  columns the tool passes are the three cases here.
\<close>

datatype field = Field_notes | Field_thread_id | Field_resolved_commit

definition updateCommentField :: "int \<Rightarrow> field \<Rightarrow> string option \<Rightarrow> store \<Rightarrow> store" where
  "updateCommentField i f v db =
     db\<lparr>comments := map (\<lambda>r. if id' r = i
                               then (case f of Field_notes \<Rightarrow> r\<lparr>notes' := v\<rparr>
                                     | Field_thread_id \<Rightarrow> r\<lparr>thread_id := v\<rparr>
                                     | Field_resolved_commit \<Rightarrow> r\<lparr>resolved_commit := v\<rparr>)
                               else r)
                        (comments db)\<rparr>"

definition clearStaleThreadId :: "int \<Rightarrow> store \<Rightarrow> store" where
  "clearStaleThreadId i db = updateCommentField i Field_thread_id None db"

subsection \<open>Effects: console, provider, process exit\<close>

text \<open>
  What the tool prints: one constructor per \<^verbatim>\<open>console\<close> statement of the modelled
  functions, grouped by the part of the tool that prints it and carrying the values
  the statement interpolates. Fixed wording and emoji are left out. Three elements
  stand for more than one line, and carry the data the lines are formatted from:
  \<open>Out_critical_item\<close> is the line of one preview item together with the suggestion
  line printed under it when the body has one (\<^verbatim>\<open>extractSuggestion\<close>,
  \<^verbatim>\<open>truncate\<close>), \<open>Out_show_comment\<close> is the output of \<^verbatim>\<open>showComment\<close> for a
  stored comment, and \<open>Out_git_history\<close> is the listing of the recent commits with
  the suggestion derived from its first line.
\<close>

datatype gap = Minutes int | Hours int

datatype fetch_line =
    Out_fetching string
  | Out_found nat nat
  | Out_page nat nat
  | Out_total nat nat
  | Out_imported nat nat nat
  | Out_auto_unsnoozed nat
  | Out_fetch_failed
  | Out_current_status
  | Out_pending int int int int int
  | Out_threads_resolved_outdated nat nat
  | Out_critical_header int
  | Out_critical_item int string "int option" string
  | Out_critical_more int
  | Out_critical_hint

datatype resolve_line =
    Out_not_found int
  | Out_no_thread_id string int
  | Out_try_fetch
  | Out_posting_reply int
  | Out_reply_posted
  | Out_resolving
  | Out_unresolving
  | Out_thread_was_stale
  | Out_remains_local string
  | Out_consider_manual
  | Out_failed_on_github string
  | Out_resyncing
  | Out_comment_resolved int string
  | Out_comment_unresolved int

datatype mutation_line =
    Out_no_thread_to string
  | Out_thread_done string string
  | Out_thread_stale string
  | Out_thread_failed string string
  | Out_thread_error string

datatype reply_line =
    Out_replying int
  | Out_not_in_database int
  | Out_not_on_github int
  | Out_reply_posted_to int
  | Out_refreshing
  | Out_snoozed_waiting
  | Out_reply_failed

datatype snooze_line =
    Out_snoozed int
  | Out_unsnoozed int
  | Out_unsnoozed_all nat
  | Out_note_added int

datatype verify_line =
    Out_not_outdated int
  | Out_already_resolved int
  | Out_show_comment comment_row "reply_row list"
  | Out_verification_info
  | Out_file_exists bool
  | Out_deletion_hint
  | Out_deletion_command string
  | Out_modified_after gap
  | Out_not_modified_after
  | Out_recent_commits string
  | Out_git_history string int
  | Out_git_unavailable
  | Out_blank

datatype out_line =
    Fetch fetch_line
  | Resolve resolve_line
  | Mutation mutation_line
  | Reply reply_line
  | Snooze snooze_line
  | Verify verify_line

text \<open>The requests the tool sends to the provider through \<^verbatim>\<open>gh\<close>.\<close>

datatype net_call =
    Call_list_comments string
  | Call_review_threads string "string option"
  | Call_mutation string string
  | Call_post_reply int string string

text \<open>
  The state a command runs in: the database, the requests sent so far, the console
  so far (both oldest first) and the module-level array \<^verbatim>\<open>deferredLogs\<close>, which
  is appended to and never emptied.
\<close>

record world =
  db :: store
  calls :: "net_call list"
  out :: "out_line list"
  deferredLogs :: "out_line list"

text \<open>How a command ends: it returns, or \<^verbatim>\<open>process.exit(n)\<close> ends the process.\<close>

datatype status = Returned | Exited nat

definition say :: "out_line \<Rightarrow> world \<Rightarrow> world" where
  "say l w = w\<lparr>out := out w @ [l]\<rparr>"

definition sayAll :: "out_line list \<Rightarrow> world \<Rightarrow> world" where
  "sayAll ls w = w\<lparr>out := out w @ ls\<rparr>"

definition request :: "net_call \<Rightarrow> world \<Rightarrow> world" where
  "request c w = w\<lparr>calls := calls w @ [c]\<rparr>"

definition deferLog :: "out_line \<Rightarrow> world \<Rightarrow> world" where
  "deferLog l w = w\<lparr>deferredLogs := deferredLogs w @ [l]\<rparr>"

text \<open>The disposer of \<^verbatim>\<open>printAtTheEnd\<close>: every deferred line is printed.\<close>

definition dispose :: "world \<Rightarrow> world" where
  "dispose w = sayAll (deferredLogs w) w"

definition onStore :: "(store \<Rightarrow> store) \<Rightarrow> world \<Rightarrow> world" where
  "onStore f w = w\<lparr>db := f (db w)\<rparr>"

text \<open>JavaScript truthiness of a nullable string and of a nullable number.\<close>

definition truthyString :: "string option \<Rightarrow> bool" where
  "truthyString v = (case v of None \<Rightarrow> False | Some s \<Rightarrow> s \<noteq> [])"

definition truthyNumber :: "int option \<Rightarrow> bool" where
  "truthyNumber v = (case v of None \<Rightarrow> False | Some n \<Rightarrow> n \<noteq> 0)"

definition DEFAULT_PR :: string where
  "DEFAULT_PR = ''24063''"

subsection \<open>Provider client\<close>

text \<open>
  One page of the GraphQL \<^verbatim>\<open>reviewThreads\<close> query: the thread nodes and
  \<^verbatim>\<open>pageInfo\<close> (absent when the document lacks it), or a \<^verbatim>\<open>gh\<close> command that fails.
\<close>

record comment_node =
  databaseId :: int
  node_outdated :: bool

record thread_node =
  node_id :: string
  node_isResolved :: bool
  node_isOutdated :: bool
  node_comments :: "comment_node list"

record pageInfo =
  hasNextPage :: bool
  endCursor :: "string option"

datatype page_reply = PageFailed | PageOk "thread_node list" "pageInfo option"

text \<open>
  What the provider answers during one run of \<^verbatim>\<open>fetchComments\<close>: the REST listing
  (\<open>None\<close> when the command fails; a document that is not an array is the empty
  list), the GraphQL pages in the order they are requested, and the clock read
  after both fetches. A request for a page beyond the end of the list fails.
\<close>

record fetch_net =
  net_listing :: "api_comment list option"
  net_pages :: "page_reply list"
  net_now :: string

text \<open>
  \<^verbatim>\<open>Map<number, ThreadInfo>\<close>, in insertion order; \<^verbatim>\<open>set\<close> on a present key
  replaces the value in place.
\<close>

type_synonym thread_map = "(int \<times> ThreadInfo) list"

fun mapSet :: "int \<Rightarrow> ThreadInfo \<Rightarrow> thread_map \<Rightarrow> thread_map" where
  "mapSet k v [] = [(k, v)]"
| "mapSet k v ((k', v') # rest) = (if k' = k then (k, v) # rest else (k', v') # mapSet k v rest)"

definition mapGet :: "thread_map \<Rightarrow> int \<Rightarrow> ThreadInfo option" where
  "mapGet m k = map_of m k"

definition mapValues :: "thread_map \<Rightarrow> ThreadInfo list" where
  "mapValues m = map snd m"

text \<open>The two nested loops over the threads of a page and the comments of a thread.\<close>

definition recordThread :: "thread_node \<Rightarrow> thread_map \<Rightarrow> thread_map" where
  "recordThread thread m =
     fold (\<lambda>comment acc. mapSet (databaseId comment)
              \<lparr> threadId = node_id thread,
                isResolved = node_isResolved thread,
                isOutdated = node_outdated comment \<rparr> acc)
          (node_comments thread) m"

definition recordThreads :: "thread_node list \<Rightarrow> thread_map \<Rightarrow> thread_map" where
  "recordThreads threads m = fold recordThread threads m"

text \<open>
  The pagination loop of \<^verbatim>\<open>fetchThreadMetadata\<close>; \<open>None\<close> when a request throws.
  \<^verbatim>\<open>pageInfo?.endCursor || null\<close> turns an empty cursor into \<^verbatim>\<open>null\<close>.
\<close>

fun fetchThreadMetadataLoop ::
  "string \<Rightarrow> page_reply list \<Rightarrow> string option \<Rightarrow> nat \<Rightarrow> thread_map \<Rightarrow> world \<Rightarrow> thread_map option \<times> world" where
  "fetchThreadMetadataLoop prNumber [] cursor pageCount threadInfo w =
     (None, request (Call_review_threads prNumber cursor) w)"
| "fetchThreadMetadataLoop prNumber (PageFailed # later) cursor pageCount threadInfo w =
     (None, request (Call_review_threads prNumber cursor) w)"
| "fetchThreadMetadataLoop prNumber (PageOk threads info # later) cursor pageCount threadInfo w =
     (let pageCount' = pageCount + 1;
          w1 = request (Call_review_threads prNumber cursor) w;
          w2 = deferLog (Fetch (Out_page pageCount' (length threads))) w1;
          threadInfo' = recordThreads threads threadInfo;
          hasNext = (case info of None \<Rightarrow> False | Some i \<Rightarrow> hasNextPage i);
          cursor' = (case info of None \<Rightarrow> None
                     | Some i \<Rightarrow> if truthyString (endCursor i) then endCursor i else None)
      in if hasNext
         then fetchThreadMetadataLoop prNumber later cursor' pageCount' threadInfo' w2
         else (Some threadInfo',
               deferLog (Fetch (Out_total (length threadInfo') pageCount')) w2))"

definition fetchThreadMetadata :: "string \<Rightarrow> page_reply list \<Rightarrow> world \<Rightarrow> thread_map option \<times> world" where
  "fetchThreadMetadata prNumber pages w = fetchThreadMetadataLoop prNumber pages None 0 [] w"

text \<open>
  \<^verbatim>\<open>fetchPRComments\<close>: the listing split into top-level comments and replies by the
  truthiness of \<^verbatim>\<open>in_reply_to_id\<close>; \<open>None\<close> when the command throws.
\<close>

definition fetchPRComments ::
  "string \<Rightarrow> api_comment list option \<Rightarrow> world \<Rightarrow> (api_comment list \<times> api_comment list) option \<times> world" where
  "fetchPRComments prNumber answer w =
     (let w1 = request (Call_list_comments prNumber) w
      in case answer of
           None \<Rightarrow> (None, w1)
         | Some result \<Rightarrow>
             (Some (filter (\<lambda>c. \<not> truthyNumber (api_in_reply_to_id c)) result,
                    filter (\<lambda>c. truthyNumber (api_in_reply_to_id c)) result), w1))"

subsection \<open>Reconciler\<close>

text \<open>The two store loops of \<^verbatim>\<open>fetchComments\<close> (steps 3 and 4).\<close>

fun storeComments ::
  "api_comment list \<Rightarrow> thread_map \<Rightarrow> string \<Rightarrow> store \<Rightarrow> nat \<Rightarrow> nat \<Rightarrow> store \<times> nat \<times> nat" where
  "storeComments [] threadInfo now d newCount updatedCount = (d, newCount, updatedCount)"
| "storeComments (comment # later) threadInfo now d newCount updatedCount =
     (case upsertComment comment (mapGet threadInfo (api_id comment)) now d of
        (d', wasNew) \<Rightarrow>
          if wasNew then storeComments later threadInfo now d' (newCount + 1) updatedCount
          else storeComments later threadInfo now d' newCount (updatedCount + 1))"

text \<open>The flag is \<open>False\<close> when an insert raised; the rows written before it stay.\<close>

fun storeReplies :: "api_comment list \<Rightarrow> store \<Rightarrow> store \<times> bool" where
  "storeReplies [] d = (d, True)"
| "storeReplies (reply # later) d =
     (case upsertReply reply d of None \<Rightarrow> (d, False) | Some d' \<Rightarrow> storeReplies later d')"

text \<open>A pending row: \<^verbatim>\<open>github_resolved = 0 AND waiting_reply = 0\<close>.\<close>

definition isPending :: "comment_row \<Rightarrow> bool" where
  "isPending r = (\<not> github_resolved r \<and> \<not> waiting_reply r)"

definition severityOrder :: "string \<Rightarrow> nat" where
  "severityOrder s =
     (if s = ''critical'' then 1 else if s = ''major'' then 2
      else if s = ''minor'' then 3 else if s = ''trivial'' then 4 else 5)"

text \<open>
  The grouped query of \<^verbatim>\<open>printFetchSummary\<close>: one row per severity present in the
  table, with the number of its pending comments, in the order of the
  \<^verbatim>\<open>CASE\<close> clause.
\<close>

definition statusStats :: "store \<Rightarrow> (string \<times> int) list" where
  "statusStats d =
     sort_key (\<lambda>row. severityOrder (fst row))
       (map (\<lambda>s. (s, int (length (filter (\<lambda>r. severity r = s \<and> isPending r) (comments d)))))
            (remdups (map severity (comments d))))"

text \<open>\<^verbatim>\<open>statusStats.find(r => r.severity === s)?.pending_count || 0\<close>\<close>

definition pendingCountOf :: "string \<Rightarrow> (string \<times> int) list \<Rightarrow> int" where
  "pendingCountOf s stats = (case find (\<lambda>row. fst row = s) stats of None \<Rightarrow> 0 | Some row \<Rightarrow> snd row)"

text \<open>
  The query of \<^verbatim>\<open>printCriticalPreview\<close>:
  \<^verbatim>\<open>WHERE severity = 'critical' AND github_resolved = 0 AND waiting_reply = 0 ORDER BY path LIMIT 5\<close>.
\<close>

definition criticalItems :: "store \<Rightarrow> comment_row list" where
  "criticalItems d =
     take 5 (sort_key path (filter (\<lambda>r. severity r = ''critical'' \<and> isPending r) (comments d)))"

definition printCriticalPreview :: "int \<Rightarrow> world \<Rightarrow> world" where
  "printCriticalPreview criticalCount w =
     (let w1 = say (Fetch (Out_critical_header criticalCount)) w;
          w2 = sayAll (map (\<lambda>item. Fetch (Out_critical_item (id' item) (path item) (line item) (body item)))
                           (criticalItems (db w))) w1;
          w3 = (if criticalCount > 5 then say (Fetch (Out_critical_more (criticalCount - 5))) w2 else w2)
      in say (Fetch Out_critical_hint) w3)"

definition printFetchSummary :: "nat \<Rightarrow> nat \<Rightarrow> world \<Rightarrow> world" where
  "printFetchSummary resolvedCount outdatedCount w =
     (let stats = statusStats (db w);
          totalPending = sum_list (map snd stats);
          criticalCount = pendingCountOf ''critical'' stats;
          majorCount = pendingCountOf ''major'' stats;
          minorCount = pendingCountOf ''minor'' stats;
          trivialCount = pendingCountOf ''trivial'' stats;
          w1 = say (Fetch Out_current_status) w;
          w2 = say (Fetch (Out_pending totalPending criticalCount majorCount minorCount trivialCount)) w1;
          w3 = say (Fetch (Out_threads_resolved_outdated resolvedCount outdatedCount)) w2
      in if criticalCount > 0 then printCriticalPreview criticalCount w3 else w3)"

text \<open>
  The \<^verbatim>\<open>catch\<close> of \<^verbatim>\<open>fetchComments\<close>. The exception leaves the \<^verbatim>\<open>try\<close> block, so
  the deferred lines are printed first.
\<close>

definition fetchFailed :: "world \<Rightarrow> world \<times> status" where
  "fetchFailed w = (say (Fetch Out_fetch_failed) (dispose w), Exited 1)"

text \<open>Step 6 of \<^verbatim>\<open>fetchComments\<close>: the two figures computed from the thread map.\<close>

definition resolvedCountOf :: "thread_map \<Rightarrow> nat" where
  "resolvedCountOf threadInfo = length (filter isResolved (mapValues threadInfo))"

definition outdatedCountOf :: "thread_map \<Rightarrow> nat" where
  "outdatedCountOf threadInfo = length (filter isOutdated (mapValues threadInfo))"

definition fetchComments :: "string \<Rightarrow> fetch_net \<Rightarrow> world \<Rightarrow> world \<times> status" where
  "fetchComments prNumber net w0 =
     (case fetchPRComments prNumber (net_listing net) (say (Fetch (Out_fetching prNumber)) w0) of
        (None, w1) \<Rightarrow> fetchFailed w1
      | (Some (topLevel, replyList), w1) \<Rightarrow>
          (case fetchThreadMetadata prNumber (net_pages net)
                  (deferLog (Fetch (Out_found (length topLevel) (length replyList))) w1) of
             (None, w2) \<Rightarrow> fetchFailed w2
           | (Some threadInfo, w2) \<Rightarrow>
               (case storeComments topLevel threadInfo (net_now net) (db w2) 0 0 of
                  (db1, newCount, updatedCount) \<Rightarrow>
                    (case storeReplies replyList db1 of
                       (db2, False) \<Rightarrow> fetchFailed (w2\<lparr>db := db2\<rparr>)
                     | (db2, True) \<Rightarrow>
                         (case processAutoUnsnooze db2 of
                            (db3, unsnoozedCount) \<Rightarrow>
                              (let w3 = say (Fetch (Out_imported newCount updatedCount (length replyList)))
                                            (w2\<lparr>db := db3\<rparr>);
                                   w4 = (if unsnoozedCount > 0
                                         then say (Fetch (Out_auto_unsnoozed unsnoozedCount)) w3 else w3);
                                   w5 = printFetchSummary (resolvedCountOf threadInfo)
                                          (outdatedCountOf threadInfo) w4
                               in (dispose w5, Returned)))))))"

subsection \<open>Thread mutations\<close>

text \<open>
  The JSON document of a mutation, as far as the tool reads it:
  \<^verbatim>\<open>data?.resolveReviewThread?.thread\<close> and \<^verbatim>\<open>data?.unresolveReviewThread?.thread\<close>
  (each with the \<^verbatim>\<open>isResolved\<close> it carries, \<open>None\<close> when absent) and the
  \<^verbatim>\<open>type\<close> of every entry of \<^verbatim>\<open>errors\<close>.
\<close>

record mutation_json =
  resolveReviewThread :: "bool option"
  unresolveReviewThread :: "bool option"
  error_types :: "string list"

text \<open>
  What the \<^verbatim>\<open>gh\<close> command of a mutation does: it prints a document, or it fails
  and the shell throws; the error then carries the standard output, parsed here
  (\<open>None\<close> when there is none or it is not JSON).
\<close>

datatype gh_answer = Answered mutation_json | Threw "mutation_json option"

text \<open>The result of \<^verbatim>\<open>executeGraphQLMutation\<close>: \<^verbatim>\<open>true\<close>, \<^verbatim>\<open>"stale"\<close> or \<^verbatim>\<open>false\<close>.\<close>

datatype mutation_outcome = Succeeded | Stale | Failed

definition hasNotFound :: "mutation_json \<Rightarrow> bool" where
  "hasNotFound result = (''NOT_FOUND'' \<in> set (error_types result))"

definition executeGraphQLMutation :: "string \<Rightarrow> string \<Rightarrow> gh_answer \<Rightarrow> world \<Rightarrow> mutation_outcome \<times> world" where
  "executeGraphQLMutation threadId' operationName answer w =
     (if threadId' = [] then (Failed, say (Mutation (Out_no_thread_to operationName)) w)
      else
        (let w1 = request (Call_mutation operationName threadId') w
         in case answer of
              Answered result \<Rightarrow>
                (let threadData = (case resolveReviewThread result of
                                     Some t \<Rightarrow> Some t | None \<Rightarrow> unresolveReviewThread result);
                     expectedResolved = (operationName = ''resolve'')
                 in if threadData = Some expectedResolved
                    then (Succeeded, say (Mutation (Out_thread_done operationName threadId')) w1)
                    else if hasNotFound result
                    then (Stale, say (Mutation (Out_thread_stale threadId')) w1)
                    else (Failed, say (Mutation (Out_thread_failed operationName threadId')) w1))
            | Threw stdout \<Rightarrow>
                (case stdout of
                   Some result \<Rightarrow>
                     if hasNotFound result
                     then (Stale, say (Mutation (Out_thread_stale threadId')) w1)
                     else (Failed, say (Mutation (Out_thread_error operationName)) w1)
                 | None \<Rightarrow> (Failed, say (Mutation (Out_thread_error operationName)) w1))))"

definition resolveThreadOnGitHub :: "string \<Rightarrow> gh_answer \<Rightarrow> world \<Rightarrow> mutation_outcome \<times> world" where
  "resolveThreadOnGitHub threadId' answer w = executeGraphQLMutation threadId' ''resolve'' answer w"

definition unresolveThreadOnGitHub :: "string \<Rightarrow> gh_answer \<Rightarrow> world \<Rightarrow> mutation_outcome \<times> world" where
  "unresolveThreadOnGitHub threadId' answer w = executeGraphQLMutation threadId' ''unresolve'' answer w"

subsection \<open>State management commands\<close>

text \<open>
  Every command takes the comment id as the number \<^verbatim>\<open>parseInt(id)\<close>. The answers
  of the provider during a command are parameters, one per place where the command
  talks to the provider.
\<close>

record reply_net =
  reply_listing :: "api_comment list option"
  reply_post_ok :: bool
  reply_sync :: fetch_net

record mutate_net =
  net_answer :: gh_answer
  net_resync :: fetch_net

definition addNote :: "int \<Rightarrow> string \<Rightarrow> string \<Rightarrow> world \<Rightarrow> world \<times> status" where
  "addNote i noteText timestamp w =
     (case getComment (db w) i of
        None \<Rightarrow> (say (Resolve (Out_not_found i)) w, Exited 1)
      | Some existing \<Rightarrow>
          (let newNote = ''['' @ timestamp @ ''] '' @ noteText;
               updatedNotes = (case notes' existing of
                                 None \<Rightarrow> newNote
                               | Some old \<Rightarrow> if old = [] then newNote else old @ [CHR 0x0A] @ newNote)
           in (say (Snooze (Out_note_added i))
                 (onStore (updateCommentField i Field_notes (Some updatedNotes)) w), Returned)))"

definition snoozeComment :: "int \<Rightarrow> world \<Rightarrow> world \<times> status" where
  "snoozeComment i w =
     (let currentReplyCount = getReplyCount (db w) i;
          changes = length (filter (\<lambda>r. id' r = i) (comments (db w)));
          w1 = onStore (setSnooze i currentReplyCount) w
      in if changes = 0 then (say (Resolve (Out_not_found i)) w1, Exited 1)
         else (say (Snooze (Out_snoozed i)) w1, Returned))"

definition unsnoozeComment :: "int \<Rightarrow> world \<Rightarrow> world \<times> status" where
  "unsnoozeComment i w =
     (let changes = length (filter (\<lambda>r. id' r = i) (comments (db w)));
          w1 = onStore (clearSnooze i) w
      in if changes = 0 then (say (Resolve (Out_not_found i)) w1, Exited 1)
         else (say (Snooze (Out_unsnoozed i)) w1, Returned))"

text \<open>
  \<^verbatim>\<open>UPDATE comments SET waiting_reply = 0, snoozed_reply_count = 0 WHERE waiting_reply = 1\<close>
\<close>

definition unsnoozeAll :: "world \<Rightarrow> world \<times> status" where
  "unsnoozeAll w =
     (let changes = length (filter waiting_reply (comments (db w)));
          w1 = onStore (\<lambda>d. d\<lparr>comments := map (\<lambda>r. if waiting_reply r
                                                    then r\<lparr>waiting_reply := False, snoozed_reply_count := Some 0\<rparr>
                                                    else r) (comments d)\<rparr>) w
      in (say (Snooze (Out_unsnoozed_all changes)) w1, Returned))"

definition replyToComment :: "int \<Rightarrow> string \<Rightarrow> reply_net \<Rightarrow> world \<Rightarrow> world \<times> status" where
  "replyToComment i replyBody net w0 =
     (let w1 = say (Reply (Out_replying i)) w0
      in case getComment (db w1) i of
           None \<Rightarrow> (say (Reply (Out_not_in_database i)) w1, Exited 1)
         | Some comment \<Rightarrow>
             (let w2 = request (Call_list_comments DEFAULT_PR) w1
              in case reply_listing net of
                   None \<Rightarrow> (say (Reply Out_reply_failed) w2, Exited 1)
                 | Some allComments \<Rightarrow>
                     (case find (\<lambda>c. api_id c = i) allComments of
                        None \<Rightarrow> (say (Reply (Out_not_on_github i)) w2, Exited 1)
                      | Some ghComment \<Rightarrow>
                          (let w3 = request (Call_post_reply i replyBody DEFAULT_PR) w2
                           in if \<not> reply_post_ok net then (say (Reply Out_reply_failed) w3, Exited 1)
                              else
                                (case fetchComments DEFAULT_PR (reply_sync net)
                                        (say (Reply Out_refreshing) (say (Reply (Out_reply_posted_to i)) w3)) of
                                   (w4, Exited n) \<Rightarrow> (w4, Exited n)
                                 | (w4, Returned) \<Rightarrow>
                                     (say (Reply Out_snoozed_waiting)
                                        (onStore (setSnooze i (getReplyCount (db w4) i)) w4),
                                      Returned))))))"

text \<open>
  The block \<^verbatim>\<open>if (replyMessage) { ... }\<close> of \<^verbatim>\<open>resolveComment\<close>.
  \<^verbatim>\<open>replyToComment\<close> catches its own errors and ends the process, so the
  \<^verbatim>\<open>catch\<close> around the call is never entered.
\<close>

definition replyStep :: "int \<Rightarrow> string option \<Rightarrow> reply_net \<Rightarrow> world \<Rightarrow> world \<times> status" where
  "replyStep i replyMessage rnet w0 =
     (if truthyString replyMessage
      then (case replyToComment i (case replyMessage of None \<Rightarrow> [] | Some m \<Rightarrow> m) rnet
                   (say (Resolve (Out_posting_reply i)) w0) of
              (w, Exited n) \<Rightarrow> (w, Exited n)
            | (w, Returned) \<Rightarrow> (say (Resolve Out_reply_posted) w, Returned))
      else (w0, Returned))"

text \<open>
  \<^verbatim>\<open>resolveComment\<close>. The thread id sent to the provider is the one read at the
  start, also when the reply step has re-synced the store in between.
\<close>

definition resolveComment ::
  "int \<Rightarrow> string option \<Rightarrow> string option \<Rightarrow> reply_net \<Rightarrow> mutate_net \<Rightarrow> world \<Rightarrow> world \<times> status" where
  "resolveComment i commit replyMessage rnet mnet w0 =
     (case getComment (db w0) i of
        None \<Rightarrow> (say (Resolve (Out_not_found i)) w0, Exited 1)
      | Some comment \<Rightarrow>
          if \<not> truthyString (thread_id comment)
          then (say (Resolve Out_try_fetch) (say (Resolve (Out_no_thread_id ''resolve'' i)) w0), Exited 1)
          else
            (case replyStep i replyMessage rnet w0 of
               (w1, Exited n) \<Rightarrow> (w1, Exited n)
             | (w1, Returned) \<Rightarrow>
                 (case resolveThreadOnGitHub (case thread_id comment of None \<Rightarrow> [] | Some t \<Rightarrow> t)
                         (net_answer mnet) (say (Resolve Out_resolving) w1) of
                    (Stale, w2) \<Rightarrow>
                      (say (Resolve Out_consider_manual)
                         (say (Resolve (Out_remains_local ''resolved''))
                            (say (Resolve Out_thread_was_stale) (onStore (clearStaleThreadId i) w2))),
                       Exited 1)
                  | (Failed, w2) \<Rightarrow> (say (Resolve (Out_failed_on_github ''resolve'')) w2, Exited 1)
                  | (Succeeded, w2) \<Rightarrow>
                      (let resolvedCommit = (if truthyString commit
                                             then (case commit of None \<Rightarrow> [] | Some c \<Rightarrow> c) else ''HEAD'');
                           w3 = onStore (updateCommentField i Field_resolved_commit (Some resolvedCommit)) w2
                       in case fetchComments DEFAULT_PR (net_resync mnet) (say (Resolve Out_resyncing) w3) of
                            (w4, Exited n) \<Rightarrow> (w4, Exited n)
                          | (w4, Returned) \<Rightarrow>
                              (say (Resolve (Out_comment_resolved i resolvedCommit)) w4, Returned)))))"

definition unresolveComment :: "int \<Rightarrow> mutate_net \<Rightarrow> world \<Rightarrow> world \<times> status" where
  "unresolveComment i mnet w0 =
     (case getComment (db w0) i of
        None \<Rightarrow> (say (Resolve (Out_not_found i)) w0, Exited 1)
      | Some comment \<Rightarrow>
          if \<not> truthyString (thread_id comment)
          then (say (Resolve Out_try_fetch) (say (Resolve (Out_no_thread_id ''unresolve'' i)) w0), Exited 1)
          else
            (case unresolveThreadOnGitHub (case thread_id comment of None \<Rightarrow> [] | Some t \<Rightarrow> t)
                    (net_answer mnet) (say (Resolve Out_unresolving) w0) of
               (Stale, w2) \<Rightarrow>
                 (say (Resolve (Out_remains_local ''unresolved''))
                    (say (Resolve Out_thread_was_stale) (onStore (clearStaleThreadId i) w2)),
                  Exited 1)
             | (Failed, w2) \<Rightarrow> (say (Resolve (Out_failed_on_github ''unresolve'')) w2, Exited 1)
             | (Succeeded, w2) \<Rightarrow>
                 (let w3 = onStore (updateCommentField i Field_resolved_commit None) w2
                  in case fetchComments DEFAULT_PR (net_resync mnet) (say (Resolve Out_resyncing) w3) of
                       (w4, Exited n) \<Rightarrow> (w4, Exited n)
                     | (w4, Returned) \<Rightarrow> (say (Resolve (Out_comment_unresolved i)) w4, Returned))))"

subsection \<open>Outdated comments\<close>

text \<open>
  The working tree and the platform, as \<^verbatim>\<open>verifyOutdated\<close> sees them: whether a
  file exists, its \<^verbatim>\<open>lastModified\<close> in milliseconds, the time value of
  \<^verbatim>\<open>new Date(s)\<close> in milliseconds (\<open>None\<close> for an invalid date, whose time value is
  \<^verbatim>\<open>NaN\<close>) and the output of \<^verbatim>\<open>git log --oneline -5\<close> for a path (\<open>None\<close> when
  the command throws). Time values are integers.
\<close>

record platform =
  file_exists :: "string \<Rightarrow> bool"
  file_lastModified :: "string \<Rightarrow> int"
  date_time :: "string \<Rightarrow> int option"
  git_log :: "string \<Rightarrow> string option"

definition isFileDeleted :: "platform \<Rightarrow> string \<Rightarrow> bool" where
  "isFileDeleted env p = (\<not> file_exists env p)"

definition getFileModifiedTime :: "platform \<Rightarrow> string \<Rightarrow> int option" where
  "getFileModifiedTime env p = (if file_exists env p then Some (file_lastModified env p) else None)"

text \<open>\<^verbatim>\<open>SELECT * FROM replies WHERE in_reply_to_id = ? ORDER BY created_at\<close>\<close>

definition getReplies :: "store \<Rightarrow> int \<Rightarrow> reply_row list" where
  "getReplies d commentId = sort_key reply_created_at (filter (\<lambda>r. in_reply_to_id r = commentId) (replies d))"

definition showComment :: "int \<Rightarrow> world \<Rightarrow> world \<times> status" where
  "showComment i w =
     (case getComment (db w) i of
        None \<Rightarrow> (say (Resolve (Out_not_found i)) w, Exited 1)
      | Some comment \<Rightarrow> (say (Verify (Out_show_comment comment (getReplies (db w) i))) w, Returned))"

text \<open>
  The elapsed time printed by \<^verbatim>\<open>verifyOutdated\<close>:
  \<^verbatim>\<open>Math.floor((fileModTime - commentTime) / 1000 / 60)\<close> minutes when that is below
  60, whole hours otherwise. The two time values are integers and the gap is
  positive where this is used; the two floating-point divisions followed by the
  floor give the integer quotient for every gap below 4 * 10^15 ms.
\<close>

definition elapsedGap :: "int \<Rightarrow> int \<Rightarrow> gap" where
  "elapsedGap fileModTime commentTime =
     (let timeDiff = (fileModTime - commentTime) div 60000
      in if timeDiff < 60 then Minutes timeDiff else Hours (timeDiff div 60))"

definition verifyOutdated :: "int \<Rightarrow> platform \<Rightarrow> world \<Rightarrow> world \<times> status" where
  "verifyOutdated i env w0 =
     (case getComment (db w0) i of
        None \<Rightarrow> (say (Resolve (Out_not_found i)) w0, Exited 1)
      | Some comment \<Rightarrow>
          (let w1 = (if \<not> outdated comment then say (Verify (Out_not_outdated i)) w0 else w0)
           in if github_resolved comment then (say (Verify (Out_already_resolved i)) w1, Returned)
              else
                (case showComment i w1 of
                   (w2, Exited n) \<Rightarrow> (w2, Exited n)
                 | (w2, Returned) \<Rightarrow>
                     (let fileExists = (\<not> isFileDeleted env (path comment));
                          w3 = say (Verify (Out_file_exists fileExists)) (say (Verify Out_verification_info) w2)
                      in if \<not> fileExists
                         then (say (Verify (Out_deletion_command (path comment)))
                                 (say (Verify Out_deletion_hint) w3), Returned)
                         else
                           (let fileModTime = getFileModifiedTime env (path comment);
                                commentTime = date_time env (first_seen comment);
                                w4 = (case fileModTime of
                                        None \<Rightarrow> w3
                                      | Some m \<Rightarrow>
                                          (case commentTime of
                                             None \<Rightarrow> say (Verify Out_not_modified_after) w3
                                           | Some t \<Rightarrow>
                                               if m > t then say (Verify (Out_modified_after (elapsedGap m t))) w3
                                               else say (Verify Out_not_modified_after) w3));
                                w5 = say (Verify (Out_recent_commits (path comment))) w4;
                                w6 = (case git_log env (path comment) of
                                        None \<Rightarrow> say (Verify Out_git_unavailable) w5
                                      | Some stdout \<Rightarrow> say (Verify (Out_git_history stdout i)) w5)
                            in (say (Verify Out_blank) w6, Returned))))))"

subsection \<open>Notions used in the statements\<close>

text \<open>The lines a command has added to the console.\<close>

definition printedBy :: "world \<Rightarrow> world \<Rightarrow> out_line list" where
  "printedBy w w' = drop (length (out w)) (out w')"

text \<open>The requests a command has sent.\<close>

definition requestedBy :: "world \<Rightarrow> world \<Rightarrow> net_call list" where
  "requestedBy w w' = drop (length (calls w)) (calls w')"

fun isCriticalItem :: "out_line \<Rightarrow> bool" where
  "isCriticalItem (Fetch (Out_critical_item i p l b)) = True"
| "isCriticalItem other = False"

fun isCriticalHeader :: "out_line \<Rightarrow> bool" where
  "isCriticalHeader (Fetch (Out_critical_header n)) = True"
| "isCriticalHeader other = False"

fun isCriticalMore :: "out_line \<Rightarrow> bool" where
  "isCriticalMore (Fetch (Out_critical_more n)) = True"
| "isCriticalMore other = False"

fun isModifiedAfter :: "out_line \<Rightarrow> bool" where
  "isModifiedAfter (Verify (Out_modified_after g)) = True"
| "isModifiedAfter other = False"

text \<open>The pending comments of critical severity.\<close>

definition pendingCritical :: "store \<Rightarrow> comment_row list" where
  "pendingCritical d = filter (\<lambda>r. severity r = ''critical'' \<and> isPending r) (comments d)"

text \<open>
  A comment that is not snoozed has the reply count 0:
  \<^verbatim>\<open>waiting_reply = 0\<close> implies \<^verbatim>\<open>snoozed_reply_count = 0\<close>.
\<close>

definition snoozeInvariant :: "store \<Rightarrow> bool" where
  "snoozeInvariant d = list_all (\<lambda>r. \<not> waiting_reply r \<longrightarrow> snoozed_reply_count r = Some 0) (comments d)"

text \<open>
  The answer to a mutation confirms it when the thread it returns has the requested
  state. A failed mutation is of the not-found class when the document (printed, or
  carried by the error) has an entry of type \<^verbatim>\<open>NOT_FOUND\<close> in \<^verbatim>\<open>errors\<close>.
\<close>

definition confirms :: "string \<Rightarrow> mutation_json \<Rightarrow> bool" where
  "confirms operationName result =
     ((case resolveReviewThread result of Some t \<Rightarrow> Some t | None \<Rightarrow> unresolveReviewThread result)
        = Some (operationName = ''resolve''))"

fun mutationFailed :: "string \<Rightarrow> gh_answer \<Rightarrow> bool" where
  "mutationFailed operationName (Answered result) = (\<not> confirms operationName result)"
| "mutationFailed operationName (Threw stdout) = True"

fun notFoundClass :: "gh_answer \<Rightarrow> bool" where
  "notFoundClass (Answered result) = hasNotFound result"
| "notFoundClass (Threw (Some result)) = hasNotFound result"
| "notFoundClass (Threw None) = False"

text \<open>The entries one thread contributes to the thread map, one per comment.\<close>

definition threadEntries :: "thread_node \<Rightarrow> thread_map" where
  "threadEntries thread =
     map (\<lambda>comment. (databaseId comment,
            \<lparr> threadId = node_id thread, isResolved = node_isResolved thread,
              isOutdated = node_outdated comment \<rparr>)) (node_comments thread)"

text \<open>
  The critical preview as the summary prints it for a store: nothing without a
  pending critical comment; otherwise the header with their number, the items, the
  note on the remainder when there are more than five, and the hint.
\<close>

definition previewLines :: "store \<Rightarrow> out_line list" where
  "previewLines d =
     (let n = int (length (pendingCritical d))
      in if n > 0
         then [Fetch (Out_critical_header n)]
              @ map (\<lambda>item. Fetch (Out_critical_item (id' item) (path item) (line item) (body item)))
                    (criticalItems d)
              @ (if n > 5 then [Fetch (Out_critical_more (n - 5))] else [])
              @ [Fetch Out_critical_hint]
         else [])"

text \<open>
  The effect of an unsnooze on a row, the test of the auto-unsnooze loop on a
  selected pair, and the same test on a row of the table.
\<close>

definition cleared :: "comment_row \<Rightarrow> comment_row" where
  "cleared r = r\<lparr>waiting_reply := False, snoozed_reply_count := Some 0\<rparr>"

definition wakes :: "store \<Rightarrow> int \<times> int option \<Rightarrow> bool" where
  "wakes d e = (getReplyCount d (fst e) > toNumber (snd e))"

definition wakesRow :: "store \<Rightarrow> comment_row \<Rightarrow> bool" where
  "wakesRow d r = (waiting_reply r \<and> getReplyCount d (id' r) > toNumber (snoozed_reply_count r))"

text \<open>A sequence of upserts, each with its own comment, thread information and clock.\<close>

fun upsertAll :: "(api_comment \<times> ThreadInfo option \<times> string) list \<Rightarrow> store \<Rightarrow> store" where
  "upsertAll [] d = d"
| "upsertAll ((comment, threadInfo, now) # later) d = upsertAll later (fst (upsertComment comment threadInfo now d))"

subsection \<open>Example data\<close>

text \<open>
  A review comment whose first line carries the markers for a potential issue and
  for critical severity, and one that mentions a marker only on its second line.
\<close>

definition exampleBody :: string where
  "exampleBody =
     ''_'' @ [CHR 0xE2, CHR 0x9A, CHR 0xA0, CHR 0xEF, CHR 0xB8, CHR 0x8F] @ '' Potential issue_ | _''
     @ [CHR 0xF0, CHR 0x9F, CHR 0x94, CHR 0xB4] @ '' Critical_'' @ [CHR 0x0A, CHR 0x0A]
     @ ''**Close the handle.**''"

definition laterMarkerBody :: string where
  "laterMarkerBody =
     ''Looks fine.'' @ [CHR 0x0A] @ ''_'' @ [CHR 0xF0, CHR 0x9F, CHR 0x94, CHR 0xB4] @ '' Critical_''"

definition exampleComment :: api_comment where
  "exampleComment =
     \<lparr> api_id = 100, api_path = ''a.ts'', api_line = Some 7, api_body = exampleBody,
       api_created_at = ''2025-10-01T09:00:00Z'', api_updated_at = ''2025-10-02T09:00:00Z'',
       api_user_login = ''reviewbot'', api_in_reply_to_id = None \<rparr>"

definition exampleThread :: ThreadInfo where
  "exampleThread = \<lparr> threadId = ''T1'', isResolved = True, isOutdated = False \<rparr>"

text \<open>Comment 100 as stored by an earlier fetch, annotated and snoozed at two replies.\<close>

definition exampleRow :: comment_row where
  "exampleRow =
     \<lparr> id' = 100, path = ''a.ts'', line = Some 7, body = ''first text'',
       priority = ''unknown'', severity = ''unknown'', outdated = True,
       created_at = ''2025-10-01T09:00:00Z'', updated_at = ''2025-10-01T09:00:00Z'',
       user = ''reviewbot'', first_seen = ''2025-10-01T10:00:00.000Z'',
       thread_id = None, github_resolved = False, resolved_commit = Some ''abc123'',
       waiting_reply = True, snoozed_reply_count = Some 2, notes' = Some ''checked by hand'' \<rparr>"

definition exampleReply :: "int \<Rightarrow> reply_row" where
  "exampleReply n =
     \<lparr> reply_id = n, in_reply_to_id = 100, reply_body = ''ok'', reply_user = ''reviewbot'',
       reply_created_at = ''2025-10-01T11:00:00Z'', reply_updated_at = ''2025-10-01T11:00:00Z'' \<rparr>"

definition exampleStore :: store where
  "exampleStore = \<lparr> comments = [exampleRow], replies = [exampleReply 201, exampleReply 202] \<rparr>"

text \<open>The same store after a third reply to comment 100 has been imported.\<close>

definition exampleStoreThreeReplies :: store where
  "exampleStoreThreeReplies =
     \<lparr> comments = [exampleRow], replies = [exampleReply 203, exampleReply 201, exampleReply 202] \<rparr>"

definition exampleWorld :: world where
  "exampleWorld = \<lparr> db = exampleStore, calls = [], out = [], deferredLogs = [] \<rparr>"

text \<open>Six pending comments of critical severity.\<close>

definition criticalRow :: "int \<Rightarrow> comment_row" where
  "criticalRow k =
     exampleRow\<lparr> id' := k, severity := ''critical'', waiting_reply := False,
                 snoozed_reply_count := Some 0 \<rparr>"

definition sixCriticalWorld :: world where
  "sixCriticalWorld =
     \<lparr> db = \<lparr> comments = map criticalRow [1, 2, 3, 4, 5, 6], replies = [] \<rparr>,
       calls = [], out = [], deferredLogs = [] \<rparr>"

text \<open>
  A fetch that finds comment 100 and one reply to it, both in one review thread
  that the provider reports as resolved.
\<close>

definition exampleApiReply :: api_comment where
  "exampleApiReply =
     \<lparr> api_id = 101, api_path = ''a.ts'', api_line = Some 7, api_body = ''Done.'',
       api_created_at = ''2025-10-02T10:00:00Z'', api_updated_at = ''2025-10-02T10:00:00Z'',
       api_user_login = ''author'', api_in_reply_to_id = Some 100 \<rparr>"

definition exampleThreadNode :: thread_node where
  "exampleThreadNode =
     \<lparr> node_id = ''T1'', node_isResolved = True, node_isOutdated = False,
       node_comments = [\<lparr> databaseId = 100, node_outdated = False \<rparr>,
                        \<lparr> databaseId = 101, node_outdated = False \<rparr>] \<rparr>"

definition exampleNet :: fetch_net where
  "exampleNet =
     \<lparr> net_listing = Some [exampleComment, exampleApiReply],
       net_pages = [PageOk [exampleThreadNode] (Some \<lparr> hasNextPage = False, endCursor = None \<rparr>)],
       net_now = ''2025-10-03T08:00:00.000Z'' \<rparr>"

definition emptyWorld :: world where
  "emptyWorld = \<lparr> db = \<lparr> comments = [], replies = [] \<rparr>, calls = [], out = [], deferredLogs = [] \<rparr>"



definition notFoundAnswer :: gh_answer where
  "notFoundAnswer =
     Threw (Some \<lparr> resolveReviewThread = None, unresolveReviewThread = None,
                   error_types = [''NOT_FOUND''] \<rparr>)"



definition exampleReplyNet :: reply_net where
  "exampleReplyNet = \<lparr> reply_listing = Some [exampleComment], reply_post_ok = True, reply_sync = exampleNet \<rparr>"

definition exampleMutateNet :: "gh_answer \<Rightarrow> mutate_net" where
  "exampleMutateNet answer = \<lparr> net_answer = answer, net_resync = exampleNet \<rparr>"

text \<open>
  A working tree in which \<^verbatim>\<open>a.ts\<close> exists and was last modified \<open>gap\<close>
  milliseconds after 2025-10-01T10:00:00.000Z (1759312800000 ms).
\<close>

definition examplePlatform :: "int \<Rightarrow> platform" where
  "examplePlatform gap =
     \<lparr> file_exists = (\<lambda>p. p = ''a.ts''),
       file_lastModified = (\<lambda>p. 1759312800000 + gap),
       date_time = (\<lambda>s. if s = ''2025-10-01T10:00:00.000Z'' then Some 1759312800000 else None),
       git_log = (\<lambda>p. Some ''abc123 close the handle'') \<rparr>"

definition emptyStore :: store where
  "emptyStore = \<lparr> comments = [], replies = [] \<rparr>"

section \<open>Properties\<close>

subsection \<open>Lookups after an upsert\<close>

lemma find_insertOrReplaceComment:
  "find (\<lambda>r. id' r = i) (insertOrReplaceComment row rows) =
     (if id' row = i then Some row else find (\<lambda>r. id' r = i) rows)"
  by (induction rows) (auto simp: insertOrReplaceComment_def)

lemma getComment_upsert_same:
  "getComment (fst (upsertComment c info now d)) (api_id c) =
     Some \<lparr> id' = api_id c, path = api_path c, line = api_line c, body = api_body c,
            priority = parsed_priority (parseComment (api_body c)),
            severity = parsed_severity (parseComment (api_body c)),
            outdated = (case info of None \<Rightarrow> False | Some t \<Rightarrow> isOutdated t),
            created_at = api_created_at c, updated_at = api_updated_at c, user = api_user_login c,
            first_seen = (case getComment d (api_id c) of None \<Rightarrow> now | Some old \<Rightarrow> first_seen old),
            thread_id = (case info of None \<Rightarrow> None | Some t \<Rightarrow> Some (threadId t)),
            github_resolved = (case info of None \<Rightarrow> False | Some t \<Rightarrow> isResolved t),
            resolved_commit = (case getComment d (api_id c) of None \<Rightarrow> None | Some old \<Rightarrow> resolved_commit old),
            waiting_reply = (case getComment d (api_id c) of None \<Rightarrow> False | Some old \<Rightarrow> waiting_reply old),
            snoozed_reply_count =
              (case getComment d (api_id c) of None \<Rightarrow> Some 0
               | Some old \<Rightarrow> (case snoozed_reply_count old of None \<Rightarrow> Some 0 | Some n \<Rightarrow> Some n)),
            notes' = (case getComment d (api_id c) of None \<Rightarrow> None | Some old \<Rightarrow> notes' old) \<rparr>"
  by (simp add: upsertComment_def Let_def getComment_def find_insertOrReplaceComment)

lemma getComment_upsert_other:
  "api_id c \<noteq> i \<Longrightarrow> getComment (fst (upsertComment c info now d)) i = getComment d i"
  by (simp add: upsertComment_def Let_def getComment_def find_insertOrReplaceComment)

lemma wasNew_iff: "snd (upsertComment c info now d) = (getComment d (api_id c) = None)"
  by (simp add: upsertComment_def Let_def)

text \<open>
  C1. A comment that is already in the store with notes, a resolved commit, a snooze
  flag and a snoozed reply count \<open>N\<close> keeps these four values when it is upserted
  again, while body, update time, outdated flag, thread id and resolved flag are those
  of the fresh fetch.
\<close>

theorem upsert_preserves_local_annotations:
  assumes "getComment d (api_id c) = Some old" and "snoozed_reply_count old = Some N"
  shows "\<exists>new. getComment (fst (upsertComment c info now d)) (api_id c) = Some new
           \<and> notes' new = notes' old
           \<and> resolved_commit new = resolved_commit old
           \<and> waiting_reply new = waiting_reply old
           \<and> snoozed_reply_count new = Some N
           \<and> body new = api_body c
           \<and> updated_at new = api_updated_at c
           \<and> outdated new = (case info of None \<Rightarrow> False | Some t \<Rightarrow> isOutdated t)
           \<and> thread_id new = (case info of None \<Rightarrow> None | Some t \<Rightarrow> Some (threadId t))
           \<and> github_resolved new = (case info of None \<Rightarrow> False | Some t \<Rightarrow> isResolved t)"
  using assms by (simp add: getComment_upsert_same)

theorem upsert_preserves_local_annotations_witness:
  "getComment exampleStore (api_id exampleComment) = Some exampleRow
   \<and> snoozed_reply_count exampleRow = Some 2
   \<and> waiting_reply exampleRow
   \<and> (\<exists>new. getComment (fst (upsertComment exampleComment (Some exampleThread) ''2025-10-03T08:00:00.000Z''
                                   exampleStore)) 100 = Some new
          \<and> notes' new = Some ''checked by hand''
          \<and> resolved_commit new = Some ''abc123''
          \<and> waiting_reply new
          \<and> snoozed_reply_count new = Some 2
          \<and> body new = exampleBody
          \<and> updated_at new = ''2025-10-02T09:00:00Z''
          \<and> \<not> outdated new
          \<and> thread_id new = Some ''T1''
          \<and> github_resolved new)"
proof -
  have h1: "getComment exampleStore (api_id exampleComment) = Some exampleRow"
    by (simp add: getComment_def exampleStore_def exampleComment_def exampleRow_def)
  have h2: "snoozed_reply_count exampleRow = Some 2"
    by (simp add: exampleRow_def)
  from upsert_preserves_local_annotations[OF h1 h2, of "Some exampleThread" "''2025-10-03T08:00:00.000Z''"]
  obtain new where n:
    "getComment (fst (upsertComment exampleComment (Some exampleThread) ''2025-10-03T08:00:00.000Z''
        exampleStore)) (api_id exampleComment) = Some new"
    "notes' new = notes' exampleRow" "resolved_commit new = resolved_commit exampleRow"
    "waiting_reply new = waiting_reply exampleRow" "snoozed_reply_count new = Some 2"
    "body new = api_body exampleComment" "updated_at new = api_updated_at exampleComment"
    "outdated new = isOutdated exampleThread" "thread_id new = Some (threadId exampleThread)"
    "github_resolved new = isResolved exampleThread"
    by auto
  have i: "api_id exampleComment = 100" by (simp add: exampleComment_def)
  from n h1 h2 show ?thesis
    unfolding i by (simp add: exampleRow_def exampleComment_def exampleThread_def)
qed

subsection \<open>The time of first ingest\<close>

lemma first_seen_upsert:
  "getComment d i = Some old \<Longrightarrow>
     \<exists>new. getComment (fst (upsertComment c info now d)) i = Some new \<and> first_seen new = first_seen old"
  by (cases "api_id c = i") (auto simp: getComment_upsert_same getComment_upsert_other)

lemma first_seen_upsertAll:
  "getComment d i = Some old \<Longrightarrow>
     \<exists>new. getComment (upsertAll ups d) i = Some new \<and> first_seen new = first_seen old"
proof (induction ups arbitrary: d old)
  case Nil
  then show ?case by simp
next
  case (Cons u ups)
  obtain c info now where u: "u = (c, info, now)" by (cases u) auto
  from first_seen_upsert[OF Cons.prems, of c info now]
  obtain mid where mid: "getComment (fst (upsertComment c info now d)) i = Some mid"
    "first_seen mid = first_seen old" by blast
  from Cons.IH[OF mid(1)] mid(2) show ?case by (simp add: u)
qed

text \<open>
  C2. The first upsert of an id stores the current timestamp as \<open>first_seen\<close>, and
  after any sequence of further upserts (of this id or of others, with any data and
  any clock) the row of that id still has this \<open>first_seen\<close>.
\<close>

theorem first_seen_fixed:
  assumes "getComment d (api_id c) = None"
  shows "(\<exists>row. getComment (fst (upsertComment c info now d)) (api_id c) = Some row \<and> first_seen row = now)
         \<and> (\<forall>ups. \<exists>row. getComment (upsertAll ups (fst (upsertComment c info now d))) (api_id c) = Some row
                       \<and> first_seen row = now)"
proof -
  have a: "\<exists>row. getComment (fst (upsertComment c info now d)) (api_id c) = Some row \<and> first_seen row = now"
    using assms by (simp add: getComment_upsert_same)
  then obtain row where row: "getComment (fst (upsertComment c info now d)) (api_id c) = Some row"
    "first_seen row = now" by blast
  have "\<exists>row'. getComment (upsertAll ups (fst (upsertComment c info now d))) (api_id c) = Some row'
              \<and> first_seen row' = now" for ups
    using first_seen_upsertAll[OF row(1), of ups] row(2) by auto
  with a show ?thesis by blast
qed

theorem first_seen_fixed_witness:
  "getComment emptyStore (api_id exampleComment) = None
   \<and> map_option first_seen
        (getComment
           (upsertAll [(exampleComment, Some exampleThread, ''2025-10-03T08:00:00.000Z''),
                       (exampleComment\<lparr>api_body := ''edited''\<rparr>, None, ''2025-10-04T08:00:00.000Z'')]
              (fst (upsertComment exampleComment None ''2025-10-01T10:00:00.000Z'' emptyStore)))
           (api_id exampleComment)) = Some ''2025-10-01T10:00:00.000Z''"
proof -
  have h: "getComment emptyStore (api_id exampleComment) = None"
    by (simp add: getComment_def emptyStore_def)
  from first_seen_fixed[OF h, of None "''2025-10-01T10:00:00.000Z''"] h
  show ?thesis by (auto simp del: upsertAll.simps)
qed

subsection \<open>Parsing priority and severity\<close>

lemma startsWith_iff: "startsWith s m \<longleftrightarrow> (\<exists>q. s = m @ q)"
  by (induction s m rule: startsWith.induct) auto

text \<open>\<open>includes_str\<close> is the substring test.\<close>

lemma includes_str_iff: "includes_str s m \<longleftrightarrow> (\<exists>p q. s = p @ m @ q)"
proof (induction s)
  case Nil
  then show ?case by auto
next
  case (Cons x xs)
  show ?case
  proof
    assume "includes_str (x # xs) m"
    then consider "startsWith (x # xs) m" | "includes_str xs m" by auto
    then show "\<exists>p q. x # xs = p @ m @ q"
    proof cases
      case 1
      then obtain q where "x # xs = m @ q" by (auto simp: startsWith_iff)
      then have "x # xs = [] @ m @ q" by simp
      then show ?thesis by blast
    next
      case 2
      then obtain p q where "xs = p @ m @ q" using Cons.IH by blast
      then have "x # xs = (x # p) @ m @ q" by simp
      then show ?thesis by blast
    qed
  next
    assume "\<exists>p q. x # xs = p @ m @ q"
    then obtain p q where pq: "x # xs = p @ m @ q" by blast
    show "includes_str (x # xs) m"
    proof (cases p)
      case Nil
      with pq have "startsWith (x # xs) m" by (auto simp: startsWith_iff)
      then show ?thesis by simp
    next
      case (Cons y ys)
      with pq have "xs = ys @ m @ q" by simp
      then have "includes_str xs m" using Cons.IH by blast
      then show ?thesis by simp
    qed
  qed
qed

lemma scanMarkers_find:
  "scanMarkers table l cur =
     (case find (\<lambda>entry. includes_str l (fst entry)) table of None \<Rightarrow> cur | Some entry \<Rightarrow> snd entry)"
  by (induction table l cur rule: scanMarkers.induct) auto

lemma scanMarkers_hit:
  "\<exists>entry \<in> set table. includes_str l (fst entry) \<Longrightarrow>
     \<exists>entry \<in> set table. includes_str l (fst entry) \<and> scanMarkers table l cur = snd entry"
  by (induction table l cur rule: scanMarkers.induct) auto

lemma scanMarkers_miss:
  "\<forall>entry \<in> set table. \<not> includes_str l (fst entry) \<Longrightarrow> scanMarkers table l cur = cur"
  by (induction table l cur rule: scanMarkers.induct) auto

lemma firstLine_idem: "firstLine (firstLine b) = firstLine b"
  by (simp add: firstLine_def)

lemma takeWhile_until: "c \<notin> set l \<Longrightarrow> takeWhile (\<lambda>x. x \<noteq> c) (l @ c # rest) = l"
  by (induction l) auto

lemma takeWhile_all: "c \<notin> set l \<Longrightarrow> takeWhile (\<lambda>x. x \<noteq> c) l = l"
  by (induction l) auto

lemma firstLine_append: "CHR 0x0A \<notin> set l \<Longrightarrow> firstLine (l @ CHR 0x0A # rest) = l"
  unfolding firstLine_def by (rule takeWhile_until)

lemma parsed_priority_eq:
  "parsed_priority (parseComment b) = scanMarkers PRIORITY_MARKERS (firstLine b) ''unknown''"
  by (simp add: parseComment_def Let_def)

lemma parsed_severity_eq:
  "parsed_severity (parseComment b) = scanMarkers SEVERITY_MARKERS (firstLine b) ''unknown''"
  by (simp add: parseComment_def Let_def)

text \<open>
  C6. Priority and severity depend on the first line of the body only. When the first
  line includes a marker of a table, the value produced is the one the table maps an
  included marker to (the first such entry in table order); when it includes none,
  the value is \<open>unknown\<close>, also when later lines include markers.
\<close>

theorem parse_first_line_only:
  "parseComment b = parseComment (firstLine b)
   \<and> (CHR 0x0A \<notin> set l \<longrightarrow> parseComment (l @ CHR 0x0A # rest) = parseComment l)
   \<and> ((\<exists>entry \<in> set PRIORITY_MARKERS. includes_str (firstLine b) (fst entry)) \<longrightarrow>
        (\<exists>entry \<in> set PRIORITY_MARKERS. includes_str (firstLine b) (fst entry)
            \<and> parsed_priority (parseComment b) = snd entry))
   \<and> ((\<exists>entry \<in> set SEVERITY_MARKERS. includes_str (firstLine b) (fst entry)) \<longrightarrow>
        (\<exists>entry \<in> set SEVERITY_MARKERS. includes_str (firstLine b) (fst entry)
            \<and> parsed_severity (parseComment b) = snd entry))
   \<and> ((\<forall>entry \<in> set PRIORITY_MARKERS. \<not> includes_str (firstLine b) (fst entry)) \<longrightarrow>
        parsed_priority (parseComment b) = ''unknown'')
   \<and> ((\<forall>entry \<in> set SEVERITY_MARKERS. \<not> includes_str (firstLine b) (fst entry)) \<longrightarrow>
        parsed_severity (parseComment b) = ''unknown'')
   \<and> parsed_priority (parseComment b) =
        (case find (\<lambda>entry. includes_str (firstLine b) (fst entry)) PRIORITY_MARKERS of
           None \<Rightarrow> ''unknown'' | Some entry \<Rightarrow> snd entry)
   \<and> parsed_severity (parseComment b) =
        (case find (\<lambda>entry. includes_str (firstLine b) (fst entry)) SEVERITY_MARKERS of
           None \<Rightarrow> ''unknown'' | Some entry \<Rightarrow> snd entry)"
proof -
  have 1: "parseComment b = parseComment (firstLine b)"
    by (simp add: parseComment_def firstLine_idem)
  have 2: "CHR 0x0A \<notin> set l \<longrightarrow> parseComment (l @ CHR 0x0A # rest) = parseComment l"
  proof
    assume a: "CHR 0x0A \<notin> set l"
    have "firstLine l = l" unfolding firstLine_def using a by (rule takeWhile_all)
    with firstLine_append[OF a, of rest] show "parseComment (l @ CHR 0x0A # rest) = parseComment l"
      by (simp add: parseComment_def)
  qed
  have 3: "(\<exists>entry \<in> set PRIORITY_MARKERS. includes_str (firstLine b) (fst entry)) \<longrightarrow>
        (\<exists>entry \<in> set PRIORITY_MARKERS. includes_str (firstLine b) (fst entry)
            \<and> parsed_priority (parseComment b) = snd entry)"
    using scanMarkers_hit[of PRIORITY_MARKERS "firstLine b" "''unknown''"]
    unfolding parsed_priority_eq by blast
  have 4: "(\<exists>entry \<in> set SEVERITY_MARKERS. includes_str (firstLine b) (fst entry)) \<longrightarrow>
        (\<exists>entry \<in> set SEVERITY_MARKERS. includes_str (firstLine b) (fst entry)
            \<and> parsed_severity (parseComment b) = snd entry)"
    using scanMarkers_hit[of SEVERITY_MARKERS "firstLine b" "''unknown''"]
    unfolding parsed_severity_eq by blast
  have 5: "(\<forall>entry \<in> set PRIORITY_MARKERS. \<not> includes_str (firstLine b) (fst entry)) \<longrightarrow>
        parsed_priority (parseComment b) = ''unknown''"
    using scanMarkers_miss[of PRIORITY_MARKERS "firstLine b" "''unknown''"]
    unfolding parsed_priority_eq by blast
  have 6: "(\<forall>entry \<in> set SEVERITY_MARKERS. \<not> includes_str (firstLine b) (fst entry)) \<longrightarrow>
        parsed_severity (parseComment b) = ''unknown''"
    using scanMarkers_miss[of SEVERITY_MARKERS "firstLine b" "''unknown''"]
    unfolding parsed_severity_eq by blast
  have 7: "parsed_priority (parseComment b) =
        (case find (\<lambda>entry. includes_str (firstLine b) (fst entry)) PRIORITY_MARKERS of
           None \<Rightarrow> ''unknown'' | Some entry \<Rightarrow> snd entry)"
    unfolding parsed_priority_eq by (rule scanMarkers_find)
  have 8: "parsed_severity (parseComment b) =
        (case find (\<lambda>entry. includes_str (firstLine b) (fst entry)) SEVERITY_MARKERS of
           None \<Rightarrow> ''unknown'' | Some entry \<Rightarrow> snd entry)"
    unfolding parsed_severity_eq by (rule scanMarkers_find)
  from 1 2 3 4 5 6 7 8 show ?thesis by blast
qed

theorem parse_first_line_only_witness:
  "(\<exists>entry \<in> set PRIORITY_MARKERS. includes_str (firstLine exampleBody) (fst entry))
   \<and> (\<exists>entry \<in> set SEVERITY_MARKERS. includes_str (firstLine exampleBody) (fst entry))
   \<and> parsed_priority (parseComment exampleBody) = ''issue''
   \<and> parsed_severity (parseComment exampleBody) = ''critical''
   \<and> (\<exists>entry \<in> set SEVERITY_MARKERS. includes_str laterMarkerBody (fst entry))
   \<and> \<not> (\<exists>entry \<in> set PRIORITY_MARKERS. includes_str (firstLine laterMarkerBody) (fst entry))
   \<and> \<not> (\<exists>entry \<in> set SEVERITY_MARKERS. includes_str (firstLine laterMarkerBody) (fst entry))
   \<and> parsed_priority (parseComment laterMarkerBody) = ''unknown''
   \<and> parsed_severity (parseComment laterMarkerBody) = ''unknown''
   \<and> CHR 0x0A \<notin> set ''Looks fine.''
   \<and> parseComment laterMarkerBody = parseComment ''Looks fine.''"
proof -
  have p: "\<exists>entry \<in> set PRIORITY_MARKERS. includes_str (firstLine exampleBody) (fst entry)"
    by (simp add: exampleBody_def firstLine_def PRIORITY_MARKERS_def)
  have s: "\<exists>entry \<in> set SEVERITY_MARKERS. includes_str (firstLine exampleBody) (fst entry)"
    by (simp add: exampleBody_def firstLine_def SEVERITY_MARKERS_def)
  have p1: "\<And>entry. entry \<in> set PRIORITY_MARKERS \<Longrightarrow> includes_str (firstLine exampleBody) (fst entry)
              \<Longrightarrow> snd entry = ''issue''"
    by (auto simp add: exampleBody_def firstLine_def PRIORITY_MARKERS_def)
  have s1: "\<And>entry. entry \<in> set SEVERITY_MARKERS \<Longrightarrow> includes_str (firstLine exampleBody) (fst entry)
              \<Longrightarrow> snd entry = ''critical''"
    by (auto simp add: exampleBody_def firstLine_def SEVERITY_MARKERS_def)
  note ex = parse_first_line_only[of exampleBody "''Looks fine.''"
      "''_'' @ [CHR 0xF0, CHR 0x9F, CHR 0x94, CHR 0xB4] @ '' Critical_''"]
  from ex have ex3: "(\<exists>entry \<in> set PRIORITY_MARKERS. includes_str (firstLine exampleBody) (fst entry)) \<longrightarrow>
        (\<exists>entry \<in> set PRIORITY_MARKERS. includes_str (firstLine exampleBody) (fst entry)
            \<and> parsed_priority (parseComment exampleBody) = snd entry)"
    by (elim conjE)
  from ex have ex4: "(\<exists>entry \<in> set SEVERITY_MARKERS. includes_str (firstLine exampleBody) (fst entry)) \<longrightarrow>
        (\<exists>entry \<in> set SEVERITY_MARKERS. includes_str (firstLine exampleBody) (fst entry)
            \<and> parsed_severity (parseComment exampleBody) = snd entry)"
    by (elim conjE)
  from ex3 p obtain e1 where "e1 \<in> set PRIORITY_MARKERS" "includes_str (firstLine exampleBody) (fst e1)"
    "parsed_priority (parseComment exampleBody) = snd e1" by blast
  with p1[of e1] have a: "parsed_priority (parseComment exampleBody) = ''issue''" by simp
  from ex4 s obtain e2 where "e2 \<in> set SEVERITY_MARKERS" "includes_str (firstLine exampleBody) (fst e2)"
    "parsed_severity (parseComment exampleBody) = snd e2" by blast
  with s1[of e2] have b: "parsed_severity (parseComment exampleBody) = ''critical''" by simp
  have l: "\<exists>entry \<in> set SEVERITY_MARKERS. includes_str laterMarkerBody (fst entry)"
    by (simp add: laterMarkerBody_def SEVERITY_MARKERS_def)
  have np: "\<forall>entry \<in> set PRIORITY_MARKERS. \<not> includes_str (firstLine laterMarkerBody) (fst entry)"
    by (simp add: laterMarkerBody_def firstLine_def PRIORITY_MARKERS_def)
  have ns: "\<forall>entry \<in> set SEVERITY_MARKERS. \<not> includes_str (firstLine laterMarkerBody) (fst entry)"
    by (simp add: laterMarkerBody_def firstLine_def SEVERITY_MARKERS_def)
  note lt = parse_first_line_only[of laterMarkerBody "''Looks fine.''"
      "''_'' @ [CHR 0xF0, CHR 0x9F, CHR 0x94, CHR 0xB4] @ '' Critical_''"]
  from lt have lt5: "(\<forall>entry \<in> set PRIORITY_MARKERS. \<not> includes_str (firstLine laterMarkerBody) (fst entry)) \<longrightarrow>
        parsed_priority (parseComment laterMarkerBody) = ''unknown''"
    by (elim conjE)
  from lt have lt6: "(\<forall>entry \<in> set SEVERITY_MARKERS. \<not> includes_str (firstLine laterMarkerBody) (fst entry)) \<longrightarrow>
        parsed_severity (parseComment laterMarkerBody) = ''unknown''"
    by (elim conjE)
  from lt have lt2: "CHR 0x0A \<notin> set ''Looks fine.'' \<longrightarrow>
        parseComment (''Looks fine.'' @ CHR 0x0A # (''_'' @ [CHR 0xF0, CHR 0x9F, CHR 0x94, CHR 0xB4] @ '' Critical_''))
          = parseComment ''Looks fine.''"
    by (elim conjE)
  from lt5 np have c: "parsed_priority (parseComment laterMarkerBody) = ''unknown''" by (rule mp)
  from lt6 ns have d: "parsed_severity (parseComment laterMarkerBody) = ''unknown''" by (rule mp)
  have nl: "CHR 0x0A \<notin> set ''Looks fine.''" by simp
  have eq: "laterMarkerBody = ''Looks fine.'' @ CHR 0x0A # (''_'' @ [CHR 0xF0, CHR 0x9F, CHR 0x94, CHR 0xB4] @ '' Critical_'')"
    by (simp add: laterMarkerBody_def)
  from lt2 nl have e: "parseComment laterMarkerBody = parseComment ''Looks fine.''"
    unfolding eq by (rule mp)
  from np have np': "\<not> (\<exists>entry \<in> set PRIORITY_MARKERS. includes_str (firstLine laterMarkerBody) (fst entry))"
    by blast
  from ns have ns': "\<not> (\<exists>entry \<in> set SEVERITY_MARKERS. includes_str (firstLine laterMarkerBody) (fst entry))"
    by blast
  show ?thesis
    by (intro conjI p s a b l np' ns' c d nl e)
qed

subsection \<open>The auto-unsnooze pass\<close>

lemma getReplyCount_clearSnooze [simp]: "getReplyCount (clearSnooze i d) j = getReplyCount d j"
  by (simp add: getReplyCount_def clearSnooze_def)

lemma replies_clearSnooze [simp]: "replies (clearSnooze i d) = replies d"
  by (simp add: clearSnooze_def)

lemma wakes_clearSnooze [simp]: "wakes (clearSnooze i d) e = wakes d e"
  by (simp add: wakes_def)

lemma comments_clearSnooze:
  "comments (clearSnooze i d) = map (\<lambda>r. if id' r = i then cleared r else r) (comments d)"
  by (simp add: clearSnooze_def cleared_def)

lemma loop_replies: "replies (fst (autoUnsnoozeLoop L d n)) = replies d"
  by (induction L d n rule: autoUnsnoozeLoop.induct) auto

lemma loop_count: "snd (autoUnsnoozeLoop L d n) = n + length (filter (wakes d) L)"
  by (induction L d n rule: autoUnsnoozeLoop.induct) (auto simp: wakes_def)

lemma loop_comments:
  "comments (fst (autoUnsnoozeLoop L d n)) =
     map (\<lambda>r. if id' r \<in> fst ` {e \<in> set L. wakes d e} then cleared r else r) (comments d)"
proof (induction L d n rule: autoUnsnoozeLoop.induct)
  case (1 d n)
  then show ?case by simp
next
  case (2 i s rest d n)
  show ?case
  proof (cases "getReplyCount d i > toNumber s")
    case True
    then have w: "wakes d (i, s)" by (simp add: wakes_def)
    have "comments (fst (autoUnsnoozeLoop ((i, s) # rest) d n))
           = map (\<lambda>r. if id' r \<in> fst ` {e \<in> set rest. wakes d e} then cleared r else r)
               (map (\<lambda>r. if id' r = i then cleared r else r) (comments d))"
      using True 2(1) by (simp add: comments_clearSnooze)
    also have "\<dots> = map (\<lambda>r. if id' r \<in> fst ` {e \<in> set ((i, s) # rest). wakes d e} then cleared r else r) (comments d)"
      using w by (auto simp: cleared_def image_iff)
    finally show ?thesis .
  next
    case False
    then have w: "\<not> wakes d (i, s)" by (simp add: wakes_def)
    have "{e \<in> set ((i, s) # rest). wakes d e} = {e \<in> set rest. wakes d e}"
      using w by auto
    with False 2(2) show ?thesis by simp
  qed
qed

lemma loop_noop: "\<forall>e \<in> set L. \<not> wakes d e \<Longrightarrow> autoUnsnoozeLoop L d n = (d, n)"
  by (induction L d n rule: autoUnsnoozeLoop.induct) (auto simp: wakes_def)

lemma find_map_id:
  "(\<And>r. id' (g r) = id' r) \<Longrightarrow> find (\<lambda>r. id' r = i) (map g rows) = map_option g (find (\<lambda>r. id' r = i) rows)"
  by (induction rows) auto

lemma woken_ids:
  assumes "distinct (map id' (comments d))" and "r \<in> set (comments d)"
  shows "id' r \<in> fst ` {e \<in> set (getSnoozedComments d). wakes d e} \<longleftrightarrow> wakesRow d r"
proof
  assume "id' r \<in> fst ` {e \<in> set (getSnoozedComments d). wakes d e}"
  then obtain r' where r': "r' \<in> set (comments d)" "waiting_reply r'" "id' r' = id' r"
      "wakes d (id' r', snoozed_reply_count r')"
    by (auto simp: getSnoozedComments_def)
  from assms(1) have "inj_on id' (set (comments d))" by (simp add: distinct_map)
  with r'(1,3) assms(2) have "r' = r" by (auto dest: inj_onD)
  with r' show "wakesRow d r" by (simp add: wakesRow_def wakes_def)
next
  assume "wakesRow d r"
  then have "(id' r, snoozed_reply_count r) \<in> {e \<in> set (getSnoozedComments d). wakes d e}"
    using assms(2) by (auto simp: wakesRow_def wakes_def getSnoozedComments_def)
  then show "id' r \<in> fst ` {e \<in> set (getSnoozedComments d). wakes d e}"
    by (metis fst_conv image_eqI)
qed

lemma pass_comments:
  assumes "distinct (map id' (comments d))"
  shows "comments (fst (processAutoUnsnooze d)) = map (\<lambda>r. if wakesRow d r then cleared r else r) (comments d)"
  unfolding processAutoUnsnooze_def loop_comments
  using woken_ids[OF assms] by (intro map_cong) auto

lemma pass_replies: "replies (fst (processAutoUnsnooze d)) = replies d"
  by (simp add: processAutoUnsnooze_def loop_replies)

lemma pass_count:
  "snd (processAutoUnsnooze d) = length (filter (wakesRow d) (comments d))"
proof -
  have "filter (wakes d) (getSnoozedComments d)
        = map (\<lambda>r. (id' r, snoozed_reply_count r)) (filter (wakesRow d) (comments d))"
    unfolding getSnoozedComments_def filter_map
    by (simp add: comp_def wakes_def wakesRow_def[abs_def] conj_commute)
  then show ?thesis by (simp add: processAutoUnsnooze_def loop_count)
qed

lemma pass_idempotent:
  assumes "distinct (map id' (comments d))"
  shows "processAutoUnsnooze (fst (processAutoUnsnooze d)) = (fst (processAutoUnsnooze d), 0)"
proof -
  let ?d' = "fst (processAutoUnsnooze d)"
  have cnt: "getReplyCount ?d' j = getReplyCount d j" for j
    by (simp add: getReplyCount_def pass_replies)
  have "\<not> wakes ?d' e" if "e \<in> set (getSnoozedComments ?d')" for e
  proof -
    from that obtain r where r: "r \<in> set (comments d)"
        "waiting_reply (if wakesRow d r then cleared r else r)"
        "e = (id' (if wakesRow d r then cleared r else r), snoozed_reply_count (if wakesRow d r then cleared r else r))"
      unfolding getSnoozedComments_def pass_comments[OF assms] by auto
    from r(2) have nw: "\<not> wakesRow d r" by (auto simp: cleared_def split: if_splits)
    with r(2,3) have "e = (id' r, snoozed_reply_count r)" "waiting_reply r" by simp_all
    with nw show ?thesis by (simp add: wakes_def wakesRow_def cnt)
  qed
  then show ?thesis unfolding processAutoUnsnooze_def[of ?d'] by (intro loop_noop) blast
qed

text \<open>
  C3. The auto-unsnooze pass clears a comment (snooze flag off, snoozed reply count 0)
  exactly when the comment is snoozed and its current reply count is strictly above
  the recorded one; every other comment, in particular a snoozed one whose count
  equals the recorded one, keeps its row. The pass reports the number of comments
  it cleared, leaves the replies alone, and a second pass right after it changes
  nothing and reports 0.
\<close>

theorem auto_unsnooze_pass:
  assumes "primary_key_ok d" and "getComment d i = Some r"
  shows "getComment (fst (processAutoUnsnooze d)) i =
           Some (if waiting_reply r \<and> getReplyCount d i > toNumber (snoozed_reply_count r)
                 then r\<lparr>waiting_reply := False, snoozed_reply_count := Some 0\<rparr> else r)
         \<and> replies (fst (processAutoUnsnooze d)) = replies d
         \<and> snd (processAutoUnsnooze d) =
             length (filter (\<lambda>r. waiting_reply r \<and> getReplyCount d (id' r) > toNumber (snoozed_reply_count r))
                       (comments d))
         \<and> processAutoUnsnooze (fst (processAutoUnsnooze d)) = (fst (processAutoUnsnooze d), 0)"
proof -
  from assms(1) have dist: "distinct (map id' (comments d))" by (simp add: primary_key_ok_def)
  from assms(2) have idr: "id' r = i"
    by (auto simp: getComment_def find_Some_iff)
  have "getComment (fst (processAutoUnsnooze d)) i
          = map_option (\<lambda>r. if wakesRow d r then cleared r else r) (getComment d i)"
    unfolding getComment_def pass_comments[OF dist]
    by (rule find_map_id) (simp add: cleared_def)
  with assms(2) idr have a: "getComment (fst (processAutoUnsnooze d)) i =
           Some (if waiting_reply r \<and> getReplyCount d i > toNumber (snoozed_reply_count r)
                 then r\<lparr>waiting_reply := False, snoozed_reply_count := Some 0\<rparr> else r)"
    by (simp add: wakesRow_def cleared_def)
  have c: "snd (processAutoUnsnooze d) =
             length (filter (\<lambda>r. waiting_reply r \<and> getReplyCount d (id' r) > toNumber (snoozed_reply_count r))
                       (comments d))"
    using pass_count[of d] by (simp add: wakesRow_def[abs_def])
  from a pass_replies[of d] c pass_idempotent[OF dist] show ?thesis by blast
qed

theorem auto_unsnooze_pass_witness:
  "primary_key_ok exampleStore \<and> getComment exampleStore 100 = Some exampleRow
   \<and> getReplyCount exampleStore 100 = 2
   \<and> getComment (fst (processAutoUnsnooze exampleStore)) 100 = Some exampleRow
   \<and> snd (processAutoUnsnooze exampleStore) = 0
   \<and> primary_key_ok exampleStoreThreeReplies \<and> getComment exampleStoreThreeReplies 100 = Some exampleRow
   \<and> getReplyCount exampleStoreThreeReplies 100 = 3
   \<and> getComment (fst (processAutoUnsnooze exampleStoreThreeReplies)) 100 =
         Some (exampleRow\<lparr>waiting_reply := False, snoozed_reply_count := Some 0\<rparr>)
   \<and> snd (processAutoUnsnooze exampleStoreThreeReplies) = 1
   \<and> processAutoUnsnooze (fst (processAutoUnsnooze exampleStoreThreeReplies)) =
         (fst (processAutoUnsnooze exampleStoreThreeReplies), 0)"
proof -
  have k2: "primary_key_ok exampleStore"
    by (simp add: primary_key_ok_def exampleStore_def exampleReply_def)
  have g2: "getComment exampleStore 100 = Some exampleRow"
    by (simp add: getComment_def exampleStore_def exampleRow_def)
  have c2: "getReplyCount exampleStore 100 = 2"
    by (simp add: getReplyCount_def exampleStore_def exampleReply_def)
  have k3: "primary_key_ok exampleStoreThreeReplies"
    by (simp add: primary_key_ok_def exampleStoreThreeReplies_def exampleReply_def)
  have g3: "getComment exampleStoreThreeReplies 100 = Some exampleRow"
    by (simp add: getComment_def exampleStoreThreeReplies_def exampleRow_def)
  have c3: "getReplyCount exampleStoreThreeReplies 100 = 3"
    by (simp add: getReplyCount_def exampleStoreThreeReplies_def exampleReply_def)
  have r: "waiting_reply exampleRow" "toNumber (snoozed_reply_count exampleRow) = 2" "id' exampleRow = 100"
    by (simp_all add: exampleRow_def toNumber_def)
  have cs2: "comments exampleStore = [exampleRow]" by (simp add: exampleStore_def)
  have cs3: "comments exampleStoreThreeReplies = [exampleRow]" by (simp add: exampleStoreThreeReplies_def)
  from auto_unsnooze_pass[OF k2 g2] c2 r cs2
  have a: "getComment (fst (processAutoUnsnooze exampleStore)) 100 = Some exampleRow"
    "snd (processAutoUnsnooze exampleStore) = 0" by simp_all
  from auto_unsnooze_pass[OF k3 g3] c3 r cs3
  have b: "getComment (fst (processAutoUnsnooze exampleStoreThreeReplies)) 100 =
         Some (exampleRow\<lparr>waiting_reply := False, snoozed_reply_count := Some 0\<rparr>)"
    "snd (processAutoUnsnooze exampleStoreThreeReplies) = 1"
    "processAutoUnsnooze (fst (processAutoUnsnooze exampleStoreThreeReplies)) =
         (fst (processAutoUnsnooze exampleStoreThreeReplies), 0)" by simp_all
  show ?thesis by (intro conjI k2 g2 c2 a k3 g3 c3 b)
qed

subsection \<open>What the commands do to the store\<close>

text \<open>
  Printing, sending a request and deferring a line leave the store alone. A property
  of the store that every write statement preserves is therefore preserved by every
  command.
\<close>

lemma db_say [simp]: "db (say l w) = db w" by (simp add: say_def)
lemma db_sayAll [simp]: "db (sayAll ls w) = db w" by (simp add: sayAll_def)
lemma db_request [simp]: "db (request c w) = db w" by (simp add: request_def)
lemma db_deferLog [simp]: "db (deferLog l w) = db w" by (simp add: deferLog_def)
lemma db_dispose [simp]: "db (dispose w) = db w" by (simp add: dispose_def)
lemma db_onStore [simp]: "db (onStore f w) = f (db w)" by (simp add: onStore_def)

lemma db_printCriticalPreview [simp]: "db (printCriticalPreview n w) = db w"
  by (simp add: printCriticalPreview_def Let_def)

lemma db_printFetchSummary [simp]: "db (printFetchSummary a b w) = db w"
  by (simp add: printFetchSummary_def Let_def)

lemma db_fetchThreadMetadataLoop [simp]:
  "db (snd (fetchThreadMetadataLoop pr pages cursor n m w)) = db w"
  by (induction pr pages cursor n m w rule: fetchThreadMetadataLoop.induct) (auto simp: Let_def)

lemma db_fetchThreadMetadata [simp]: "db (snd (fetchThreadMetadata pr pages w)) = db w"
  by (simp add: fetchThreadMetadata_def)

lemma db_fetchPRComments [simp]: "db (snd (fetchPRComments pr answer w)) = db w"
  by (simp add: fetchPRComments_def Let_def split: option.splits)

lemma db_fetchFailed [simp]: "db (fst (fetchFailed w)) = db w"
  by (simp add: fetchFailed_def)

lemma db_executeGraphQLMutation [simp]: "db (snd (executeGraphQLMutation t op' answer w)) = db w"
  by (simp add: executeGraphQLMutation_def Let_def split: gh_answer.splits option.splits)

lemma storeComments_preserves:
  assumes "\<And>c info now d. P d \<Longrightarrow> P (fst (upsertComment c info now d))" and "P d"
  shows "P (fst (storeComments cs m now d a b))"
  using assms(2)
proof (induction cs m now d a b rule: storeComments.induct)
  case 1
  then show ?case by simp
next
  case (2 comment later threadInfo now d newCount updatedCount)
  obtain d' wasNew where u: "upsertComment comment (mapGet threadInfo (api_id comment)) now d = (d', wasNew)"
    by (cases "upsertComment comment (mapGet threadInfo (api_id comment)) now d")
  from assms(1)[OF 2(3), of comment "mapGet threadInfo (api_id comment)" now] u have "P d'" by simp
  with 2(1,2) u show ?case by (cases wasNew) auto
qed

lemma storeReplies_preserves:
  assumes "\<And>r d d'. P d \<Longrightarrow> upsertReply r d = Some d' \<Longrightarrow> P d'" and "P d"
  shows "P (fst (storeReplies rs d))"
  using assms(2)
proof (induction rs d rule: storeReplies.induct)
  case 1
  then show ?case by simp
next
  case (2 reply later d)
  then show ?case using assms(1) by (cases "upsertReply reply d") auto
qed

lemma autoUnsnoozeLoop_preserves:
  assumes "\<And>i d. P d \<Longrightarrow> P (clearSnooze i d)" and "P d"
  shows "P (fst (autoUnsnoozeLoop L d n))"
  using assms(2) by (induction L d n rule: autoUnsnoozeLoop.induct) (auto intro: assms(1))

lemma processAutoUnsnooze_preserves:
  assumes "\<And>i d. P d \<Longrightarrow> P (clearSnooze i d)" and "P d"
  shows "P (fst (processAutoUnsnooze d))"
  unfolding processAutoUnsnooze_def using assms by (rule autoUnsnoozeLoop_preserves)

lemma fetchComments_preserves:
  assumes up: "\<And>c info now d. P d \<Longrightarrow> P (fst (upsertComment c info now d))"
    and re: "\<And>r d d'. P d \<Longrightarrow> upsertReply r d = Some d' \<Longrightarrow> P d'"
    and cl: "\<And>i d. P d \<Longrightarrow> P (clearSnooze i d)"
    and "P (db w)"
  shows "P (db (fst (fetchComments pr net w)))"
proof -
  let ?w0 = "say (Fetch (Out_fetching pr)) w"
  obtain r1 w1 where f1: "fetchPRComments pr (net_listing net) ?w0 = (r1, w1)"
    by (cases "fetchPRComments pr (net_listing net) ?w0")
  have d1: "db w1 = db w" using db_fetchPRComments[of pr "net_listing net" ?w0] f1 by simp
  show ?thesis
  proof (cases r1)
    case None
    with f1 d1 assms(4) show ?thesis by (simp add: fetchComments_def)
  next
    case (Some pr1)
    obtain topLevel replyList where pr1: "pr1 = (topLevel, replyList)" by (cases pr1)
    let ?w1' = "deferLog (Fetch (Out_found (length topLevel) (length replyList))) w1"
    obtain r2 w2 where f2: "fetchThreadMetadata pr (net_pages net) ?w1' = (r2, w2)"
      by (cases "fetchThreadMetadata pr (net_pages net) ?w1'")
    have d2: "db w2 = db w" using db_fetchThreadMetadata[of pr "net_pages net" ?w1'] f2 d1 by simp
    show ?thesis
    proof (cases r2)
      case None
      with f1 Some pr1 f2 d2 assms(4) show ?thesis by (simp add: fetchComments_def)
    next
      case (Some threadInfo)
      obtain db1 nc uc where s1: "storeComments topLevel threadInfo (net_now net) (db w2) 0 0 = (db1, nc, uc)"
        by (cases "storeComments topLevel threadInfo (net_now net) (db w2) 0 0")
      have p1: "P db1"
        using storeComments_preserves[of P "db w2" topLevel threadInfo "net_now net" 0 0, OF up] assms(4) d2 s1
        by simp
      obtain db2 ok where s2: "storeReplies replyList db1 = (db2, ok)"
        by (cases "storeReplies replyList db1")
      have p2: "P db2" using storeReplies_preserves[of P db1 replyList, OF re p1] s2 by simp
      obtain db3 un where s3: "processAutoUnsnooze db2 = (db3, un)" by (cases "processAutoUnsnooze db2")
      have p3: "P db3" using processAutoUnsnooze_preserves[of P db2, OF cl p2] s3 by simp
      from f1 \<open>r1 = Some pr1\<close> pr1 f2 Some s1 s2 s3 p2 p3 show ?thesis
        by (cases ok) (simp_all add: fetchComments_def Let_def)
    qed
  qed
qed


lemma db_mutation_result:
  assumes "executeGraphQLMutation t op' answer w = (oc, w2)"
  shows "db w2 = db w"
proof -
  have "db (snd (executeGraphQLMutation t op' answer w)) = db w" by (rule db_executeGraphQLMutation)
  with assms show ?thesis by simp
qed

lemma replyToComment_preserves:
  assumes up: "\<And>c info now d. P d \<Longrightarrow> P (fst (upsertComment c info now d))"
    and re: "\<And>r d d'. P d \<Longrightarrow> upsertReply r d = Some d' \<Longrightarrow> P d'"
    and cl: "\<And>i d. P d \<Longrightarrow> P (clearSnooze i d)"
    and sn: "\<And>i n d. P d \<Longrightarrow> P (setSnooze i n d)"
    and "P (db w)"
  shows "P (db (fst (replyToComment i replyBody net w)))"
proof -
  let ?w3 = "say (Reply Out_refreshing) (say (Reply (Out_reply_posted_to i))
               (request (Call_post_reply i replyBody DEFAULT_PR)
                  (request (Call_list_comments DEFAULT_PR) (say (Reply (Out_replying i)) w))))"
  obtain w4 st where f: "fetchComments DEFAULT_PR (reply_sync net) ?w3 = (w4, st)"
    by (cases "fetchComments DEFAULT_PR (reply_sync net) ?w3")
  have "P (db w4)"
    using fetchComments_preserves[of P ?w3 DEFAULT_PR "reply_sync net", OF up re cl] assms(5) f by simp
  with f assms(5) sn show ?thesis
    by (cases st) (auto simp: replyToComment_def Let_def split: option.splits)
qed

lemma replyStep_preserves:
  assumes up: "\<And>c info now d. P d \<Longrightarrow> P (fst (upsertComment c info now d))"
    and re: "\<And>r d d'. P d \<Longrightarrow> upsertReply r d = Some d' \<Longrightarrow> P d'"
    and cl: "\<And>i d. P d \<Longrightarrow> P (clearSnooze i d)"
    and sn: "\<And>i n d. P d \<Longrightarrow> P (setSnooze i n d)"
    and "P (db w)"
  shows "P (db (fst (replyStep i replyMessage rnet w)))"
proof -
  let ?w = "say (Resolve (Out_posting_reply i)) w"
  let ?m = "case replyMessage of None \<Rightarrow> [] | Some m \<Rightarrow> m"
  obtain w1 st where f: "replyToComment i ?m rnet ?w = (w1, st)"
    by (cases "replyToComment i ?m rnet ?w")
  have "P (db w1)"
    using replyToComment_preserves[of P ?w i ?m rnet, OF up re cl sn] assms(5) f by simp
  with f assms(5) show ?thesis by (cases st) (auto simp: replyStep_def)
qed

lemma resolveComment_preserves:
  assumes up: "\<And>c info now d. P d \<Longrightarrow> P (fst (upsertComment c info now d))"
    and re: "\<And>r d d'. P d \<Longrightarrow> upsertReply r d = Some d' \<Longrightarrow> P d'"
    and cl: "\<And>i d. P d \<Longrightarrow> P (clearSnooze i d)"
    and sn: "\<And>i n d. P d \<Longrightarrow> P (setSnooze i n d)"
    and uf: "\<And>i f v d. P d \<Longrightarrow> P (updateCommentField i f v d)"
    and "P (db w)"
  shows "P (db (fst (resolveComment i commit replyMessage rnet mnet w)))"
proof (cases "getComment (db w) i")
  case None
  with assms(6) show ?thesis by (simp add: resolveComment_def)
next
  case (Some comment)
  show ?thesis
  proof (cases "truthyString (thread_id comment)")
    case False
    with Some assms(6) show ?thesis by (simp add: resolveComment_def)
  next
    case True
    obtain w1 st1 where r: "replyStep i replyMessage rnet w = (w1, st1)"
      by (cases "replyStep i replyMessage rnet w")
    have p1: "P (db w1)"
      using replyStep_preserves[of P w i replyMessage rnet, OF up re cl sn assms(6)] r by simp
    show ?thesis
    proof (cases st1)
      case (Exited n)
      with Some True r p1 show ?thesis by (simp add: resolveComment_def)
    next
      case Returned
      let ?t = "case thread_id comment of None \<Rightarrow> [] | Some t \<Rightarrow> t"
      obtain oc w2 where m: "resolveThreadOnGitHub ?t (net_answer mnet) (say (Resolve Out_resolving) w1) = (oc, w2)"
        by (cases "resolveThreadOnGitHub ?t (net_answer mnet) (say (Resolve Out_resolving) w1)")
      have d2: "db w2 = db w1"
        using db_mutation_result[of ?t "''resolve''" "net_answer mnet" "say (Resolve Out_resolving) w1" oc w2] m
        by (simp add: resolveThreadOnGitHub_def)
      show ?thesis
      proof (cases oc)
        case Succeeded
        let ?rc = "if truthyString commit then (case commit of None \<Rightarrow> [] | Some c \<Rightarrow> c) else ''HEAD''"
        let ?w3 = "say (Resolve Out_resyncing) (onStore (updateCommentField i Field_resolved_commit (Some ?rc)) w2)"
        obtain w4 st4 where f: "fetchComments DEFAULT_PR (net_resync mnet) ?w3 = (w4, st4)"
          by (cases "fetchComments DEFAULT_PR (net_resync mnet) ?w3")
        have "P (db ?w3)" using uf[OF p1] d2 by simp
        then have "P (db w4)"
          using fetchComments_preserves[of P ?w3 DEFAULT_PR "net_resync mnet", OF up re cl] f by simp
        with Some True r Returned m Succeeded f show ?thesis
          by (cases st4) (simp_all add: resolveComment_def Let_def)
      next
        case Stale
        with Some True r Returned m d2 uf[OF p1] show ?thesis
          by (simp add: resolveComment_def clearStaleThreadId_def)
      next
        case Failed
        with Some True r Returned m d2 p1 show ?thesis by (simp add: resolveComment_def)
      qed
    qed
  qed
qed

lemma unresolveComment_preserves:
  assumes up: "\<And>c info now d. P d \<Longrightarrow> P (fst (upsertComment c info now d))"
    and re: "\<And>r d d'. P d \<Longrightarrow> upsertReply r d = Some d' \<Longrightarrow> P d'"
    and cl: "\<And>i d. P d \<Longrightarrow> P (clearSnooze i d)"
    and uf: "\<And>i f v d. P d \<Longrightarrow> P (updateCommentField i f v d)"
    and "P (db w)"
  shows "P (db (fst (unresolveComment i mnet w)))"
proof (cases "getComment (db w) i")
  case None
  with assms(5) show ?thesis by (simp add: unresolveComment_def)
next
  case (Some comment)
  show ?thesis
  proof (cases "truthyString (thread_id comment)")
    case False
    with Some assms(5) show ?thesis by (simp add: unresolveComment_def)
  next
    case True
    let ?t = "case thread_id comment of None \<Rightarrow> [] | Some t \<Rightarrow> t"
    obtain oc w2 where m: "unresolveThreadOnGitHub ?t (net_answer mnet) (say (Resolve Out_unresolving) w) = (oc, w2)"
      by (cases "unresolveThreadOnGitHub ?t (net_answer mnet) (say (Resolve Out_unresolving) w)")
    have d2: "db w2 = db w"
      using db_mutation_result[of ?t "''unresolve''" "net_answer mnet" "say (Resolve Out_unresolving) w" oc w2] m
      by (simp add: unresolveThreadOnGitHub_def)
    show ?thesis
    proof (cases oc)
      case Succeeded
      let ?w3 = "say (Resolve Out_resyncing) (onStore (updateCommentField i Field_resolved_commit None) w2)"
      obtain w4 st4 where f: "fetchComments DEFAULT_PR (net_resync mnet) ?w3 = (w4, st4)"
        by (cases "fetchComments DEFAULT_PR (net_resync mnet) ?w3")
      have "P (db ?w3)" using uf[OF assms(5)] d2 by simp
      then have "P (db w4)"
        using fetchComments_preserves[of P ?w3 DEFAULT_PR "net_resync mnet", OF up re cl] f by simp
      with Some True m Succeeded f show ?thesis
        by (cases st4) (simp_all add: unresolveComment_def Let_def)
    next
      case Stale
      with Some True m d2 uf[OF assms(5)] show ?thesis
        by (simp add: unresolveComment_def clearStaleThreadId_def)
    next
      case Failed
      with Some True m d2 assms(5) show ?thesis by (simp add: unresolveComment_def)
    qed
  qed
qed

subsection \<open>The snooze invariant and the primary key\<close>

lemma inv_upsert: "snoozeInvariant d \<Longrightarrow> snoozeInvariant (fst (upsertComment c info now d))"
proof -
  assume a: "snoozeInvariant d"
  have old: "\<not> waiting_reply old \<longrightarrow> snoozed_reply_count old = Some 0"
    if "getComment d (api_id c) = Some old" for old
  proof -
    from that have "old \<in> set (comments d)" by (auto simp: getComment_def find_Some_iff)
    with a show ?thesis by (auto simp: snoozeInvariant_def list_all_iff)
  qed
  show ?thesis
  proof (cases "getComment d (api_id c)")
    case None
    with a show ?thesis
      by (auto simp: snoozeInvariant_def list_all_iff upsertComment_def Let_def insertOrReplaceComment_def)
  next
    case (Some o1)
    with a old[OF Some] show ?thesis
      by (auto simp: snoozeInvariant_def list_all_iff upsertComment_def Let_def insertOrReplaceComment_def
          split: option.splits)
  qed
qed

lemma inv_upsertReply: "snoozeInvariant d \<Longrightarrow> upsertReply r d = Some d' \<Longrightarrow> snoozeInvariant d'"
  by (auto simp: snoozeInvariant_def upsertReply_def split: option.splits)

lemma inv_clearSnooze: "snoozeInvariant d \<Longrightarrow> snoozeInvariant (clearSnooze i d)"
  by (auto simp: snoozeInvariant_def list_all_iff clearSnooze_def)

lemma inv_setSnooze: "snoozeInvariant d \<Longrightarrow> snoozeInvariant (setSnooze i n d)"
  by (auto simp: snoozeInvariant_def list_all_iff setSnooze_def)

lemma inv_updateCommentField: "snoozeInvariant d \<Longrightarrow> snoozeInvariant (updateCommentField i f v d)"
  by (auto simp: snoozeInvariant_def list_all_iff updateCommentField_def split: field.splits)

lemma distinct_insertOrReplaceComment:
  "distinct (map id' rows) \<Longrightarrow> distinct (map id' (insertOrReplaceComment row rows))"
  by (auto simp: insertOrReplaceComment_def distinct_map_filter)

lemma distinct_insertOrReplaceReply:
  "distinct (map reply_id rows) \<Longrightarrow> distinct (map reply_id (insertOrReplaceReply row rows))"
  by (auto simp: insertOrReplaceReply_def distinct_map_filter)

lemma upsertComment_tables:
  "\<exists>row. comments (fst (upsertComment c info now d)) = insertOrReplaceComment row (comments d)
         \<and> replies (fst (upsertComment c info now d)) = replies d"
  by (simp add: upsertComment_def Let_def) (rule exI, rule refl)

lemma pk_upsert: "primary_key_ok d \<Longrightarrow> primary_key_ok (fst (upsertComment c info now d))"
  using upsertComment_tables[of c info now d]
  by (auto simp: primary_key_ok_def distinct_insertOrReplaceComment)

lemma pk_upsertReply: "primary_key_ok d \<Longrightarrow> upsertReply r d = Some d' \<Longrightarrow> primary_key_ok d'"
  by (cases "api_in_reply_to_id r")
     (auto simp: primary_key_ok_def upsertReply_def distinct_insertOrReplaceReply)

lemma map_id_same: "(\<And>r. id' (g r) = id' r) \<Longrightarrow> map id' (map g rows) = map id' rows"
  by (induction rows) auto

lemma pk_clearSnooze: "primary_key_ok d \<Longrightarrow> primary_key_ok (clearSnooze i d)"
proof -
  have "map id' (comments (clearSnooze i d)) = map id' (comments d)"
    unfolding clearSnooze_def by (simp del: map_map) (rule map_id_same, simp)
  then show "primary_key_ok d \<Longrightarrow> primary_key_ok (clearSnooze i d)"
    by (simp add: primary_key_ok_def)
qed

lemma pk_setSnooze: "primary_key_ok d \<Longrightarrow> primary_key_ok (setSnooze i n d)"
proof -
  have "map id' (comments (setSnooze i n d)) = map id' (comments d)"
    unfolding setSnooze_def by (simp del: map_map) (rule map_id_same, simp)
  moreover have "replies (setSnooze i n d) = replies d" by (simp add: setSnooze_def)
  ultimately show "primary_key_ok d \<Longrightarrow> primary_key_ok (setSnooze i n d)"
    by (simp add: primary_key_ok_def)
qed

lemma pk_updateCommentField: "primary_key_ok d \<Longrightarrow> primary_key_ok (updateCommentField i f v d)"
proof -
  have "map id' (comments (updateCommentField i f v d)) = map id' (comments d)"
    unfolding updateCommentField_def by (simp del: map_map) (rule map_id_same, simp split: field.splits)
  moreover have "replies (updateCommentField i f v d) = replies d"
    by (simp add: updateCommentField_def)
  ultimately show "primary_key_ok d \<Longrightarrow> primary_key_ok (updateCommentField i f v d)"
    by (simp add: primary_key_ok_def)
qed

lemma upsert_snooze_fields:
  "\<exists>row. getComment (fst (upsertComment c info now d)) (api_id c) = Some row
     \<and> waiting_reply row = (case getComment d (api_id c) of None \<Rightarrow> False | Some old \<Rightarrow> waiting_reply old)
     \<and> snoozed_reply_count row =
          (case getComment d (api_id c) of None \<Rightarrow> Some 0 | Some old \<Rightarrow> Some (toNumber (snoozed_reply_count old)))"
proof (cases "getComment d (api_id c)")
  case None
  then show ?thesis by (simp add: getComment_upsert_same)
next
  case (Some old)
  then show ?thesis by (cases "snoozed_reply_count old") (simp_all add: getComment_upsert_same toNumber_def)
qed

lemma comments_unsnoozeAll:
  "comments (db (fst (unsnoozeAll w))) = map (\<lambda>r. if waiting_reply r then cleared r else r) (comments (db w))"
  by (simp add: unsnoozeAll_def Let_def cleared_def)

lemma unsnoozeAll_rows:
  "list_all (\<lambda>r. \<not> waiting_reply r \<longrightarrow> snoozed_reply_count r = Some 0) rows \<Longrightarrow>
   list_all (\<lambda>r. \<not> waiting_reply r \<and> snoozed_reply_count r = Some 0)
     (map (\<lambda>r. if waiting_reply r then cleared r else r) rows)"
  by (induction rows) (simp_all add: cleared_def)

lemma clearSnooze_rows:
  "list_all (\<lambda>r. id' r = i \<longrightarrow> \<not> waiting_reply r \<and> snoozed_reply_count r = Some 0)
     (comments (clearSnooze i d))"
proof -
  have "list_all (\<lambda>r. id' r = i \<longrightarrow> \<not> waiting_reply r \<and> snoozed_reply_count r = Some 0)
     (map (\<lambda>r. if id' r = i then r\<lparr>waiting_reply := False, snoozed_reply_count := Some 0\<rparr> else r) rows)"
    for rows :: "comment_row list" by (induction rows) simp_all
  then show ?thesis by (simp add: clearSnooze_def)
qed

lemma setSnooze_rows:
  "list_all (\<lambda>r. id' r = i \<longrightarrow> waiting_reply r \<and> snoozed_reply_count r = Some n)
     (comments (setSnooze i n d))"
proof -
  have "list_all (\<lambda>r. id' r = i \<longrightarrow> waiting_reply r \<and> snoozed_reply_count r = Some n)
     (map (\<lambda>r. if id' r = i then r\<lparr>waiting_reply := True, snoozed_reply_count := Some n\<rparr> else r) rows)"
    for rows :: "comment_row list" by (induction rows) simp_all
  then show ?thesis by (simp add: setSnooze_def)
qed

lemma db_snoozeComment: "db (fst (snoozeComment i w)) = setSnooze i (getReplyCount (db w) i) (db w)"
  by (simp add: snoozeComment_def Let_def)

lemma db_unsnoozeComment: "db (fst (unsnoozeComment i w)) = clearSnooze i (db w)"
  by (simp add: unsnoozeComment_def Let_def)

lemma addNote_preserves:
  assumes "P (db w)" and "\<And>v. P (updateCommentField i Field_notes v (db w))"
  shows "P (db (fst (addNote i noteText timestamp w)))"
  using assms by (cases "getComment (db w) i") (simp_all add: addNote_def Let_def)

text \<open>
  Every command keeps the primary key of both tables.
\<close>

lemma primary_key_fetchComments:
  "primary_key_ok (db w) \<Longrightarrow> primary_key_ok (db (fst (fetchComments pr net w)))"
  by (rule fetchComments_preserves[of primary_key_ok, OF pk_upsert pk_upsertReply pk_clearSnooze])

lemma primary_key_replyToComment:
  "primary_key_ok (db w) \<Longrightarrow> primary_key_ok (db (fst (replyToComment i replyBody rnet w)))"
  by (rule replyToComment_preserves[of primary_key_ok,
        OF pk_upsert pk_upsertReply pk_clearSnooze pk_setSnooze])

lemma primary_key_resolveComment:
  "primary_key_ok (db w) \<Longrightarrow>
     primary_key_ok (db (fst (resolveComment i commit replyMessage rnet mnet w)))"
  by (rule resolveComment_preserves[of primary_key_ok,
        OF pk_upsert pk_upsertReply pk_clearSnooze pk_setSnooze pk_updateCommentField])

lemma primary_key_unresolveComment:
  "primary_key_ok (db w) \<Longrightarrow> primary_key_ok (db (fst (unresolveComment i mnet w)))"
  by (rule unresolveComment_preserves[of primary_key_ok,
        OF pk_upsert pk_upsertReply pk_clearSnooze pk_updateCommentField])

text \<open>
  C10. Every operation preserves the invariant that a comment which is not snoozed
  has the snoozed reply count 0: the upsert (a first insert stores the flag off and
  the count 0, a later one carries both forward), the auto-unsnooze pass, the whole
  fetch, snooze, unsnooze, unsnooze-all, reply, resolve, unresolve and note. Each
  unsnooze writes flag and count together, and snooze writes the flag and the
  current reply count together.
\<close>

theorem snooze_invariant_preserved:
  assumes "snoozeInvariant (db w)"
  shows "snoozeInvariant (fst (upsertComment c info now (db w)))
       \<and> (getComment (db w) (api_id c) = None \<longrightarrow>
            (\<exists>row. getComment (fst (upsertComment c info now (db w))) (api_id c) = Some row
                \<and> \<not> waiting_reply row \<and> snoozed_reply_count row = Some 0))
       \<and> (\<forall>old. getComment (db w) (api_id c) = Some old \<longrightarrow>
            (\<exists>row. getComment (fst (upsertComment c info now (db w))) (api_id c) = Some row
                \<and> waiting_reply row = waiting_reply old
                \<and> snoozed_reply_count row = Some (toNumber (snoozed_reply_count old))))
       \<and> snoozeInvariant (fst (processAutoUnsnooze (db w)))
       \<and> snoozeInvariant (db (fst (fetchComments pr net w)))
       \<and> snoozeInvariant (db (fst (snoozeComment i w)))
       \<and> snoozeInvariant (db (fst (unsnoozeComment i w)))
       \<and> snoozeInvariant (db (fst (unsnoozeAll w)))
       \<and> snoozeInvariant (db (fst (replyToComment i replyBody rnet w)))
       \<and> snoozeInvariant (db (fst (resolveComment i commit replyMessage rnet mnet w)))
       \<and> snoozeInvariant (db (fst (unresolveComment i mnet w)))
       \<and> snoozeInvariant (db (fst (addNote i noteText timestamp w)))
       \<and> list_all (\<lambda>r. id' r = i \<longrightarrow> \<not> waiting_reply r \<and> snoozed_reply_count r = Some 0)
            (comments (db (fst (unsnoozeComment i w))))
       \<and> list_all (\<lambda>r. \<not> waiting_reply r \<and> snoozed_reply_count r = Some 0)
            (comments (db (fst (unsnoozeAll w))))
       \<and> list_all (\<lambda>r. id' r = i \<longrightarrow> waiting_reply r \<and> snoozed_reply_count r = Some (getReplyCount (db w) i))
            (comments (db (fst (snoozeComment i w))))"
proof -
  note a = assms
  have 1: "snoozeInvariant (fst (upsertComment c info now (db w)))" using a by (rule inv_upsert)
  from upsert_snooze_fields[of c info now "db w"]
  obtain row where row: "getComment (fst (upsertComment c info now (db w))) (api_id c) = Some row"
    "waiting_reply row = (case getComment (db w) (api_id c) of None \<Rightarrow> False | Some old \<Rightarrow> waiting_reply old)"
    "snoozed_reply_count row =
       (case getComment (db w) (api_id c) of None \<Rightarrow> Some 0 | Some old \<Rightarrow> Some (toNumber (snoozed_reply_count old)))"
    by blast
  have 2: "getComment (db w) (api_id c) = None \<longrightarrow>
            (\<exists>row. getComment (fst (upsertComment c info now (db w))) (api_id c) = Some row
                \<and> \<not> waiting_reply row \<and> snoozed_reply_count row = Some 0)"
    using row by simp
  have 3: "\<forall>old. getComment (db w) (api_id c) = Some old \<longrightarrow>
            (\<exists>row. getComment (fst (upsertComment c info now (db w))) (api_id c) = Some row
                \<and> waiting_reply row = waiting_reply old
                \<and> snoozed_reply_count row = Some (toNumber (snoozed_reply_count old)))"
    using row by simp
  have 4: "snoozeInvariant (fst (processAutoUnsnooze (db w)))"
    by (rule processAutoUnsnooze_preserves[of snoozeInvariant, OF inv_clearSnooze a])
  have 5: "snoozeInvariant (db (fst (fetchComments pr net w)))"
    by (rule fetchComments_preserves[of snoozeInvariant, OF inv_upsert inv_upsertReply inv_clearSnooze a])
  have 6: "snoozeInvariant (db (fst (snoozeComment i w)))"
    unfolding db_snoozeComment using a by (rule inv_setSnooze)
  have 7: "snoozeInvariant (db (fst (unsnoozeComment i w)))"
    unfolding db_unsnoozeComment using a by (rule inv_clearSnooze)
  have 14: "list_all (\<lambda>r. \<not> waiting_reply r \<and> snoozed_reply_count r = Some 0)
            (comments (db (fst (unsnoozeAll w))))"
    unfolding comments_unsnoozeAll using a unfolding snoozeInvariant_def by (rule unsnoozeAll_rows)
  then have 8: "snoozeInvariant (db (fst (unsnoozeAll w)))"
    by (simp add: snoozeInvariant_def list_all_iff)
  have 9: "snoozeInvariant (db (fst (replyToComment i replyBody rnet w)))"
    by (rule replyToComment_preserves[of snoozeInvariant,
          OF inv_upsert inv_upsertReply inv_clearSnooze inv_setSnooze a])
  have 10: "snoozeInvariant (db (fst (resolveComment i commit replyMessage rnet mnet w)))"
    by (rule resolveComment_preserves[of snoozeInvariant,
          OF inv_upsert inv_upsertReply inv_clearSnooze inv_setSnooze inv_updateCommentField a])
  have 11: "snoozeInvariant (db (fst (unresolveComment i mnet w)))"
    by (rule unresolveComment_preserves[of snoozeInvariant,
          OF inv_upsert inv_upsertReply inv_clearSnooze inv_updateCommentField a])
  have 12: "snoozeInvariant (db (fst (addNote i noteText timestamp w)))"
    using a inv_updateCommentField[OF a, of i Field_notes] by (rule addNote_preserves)
  have 13: "list_all (\<lambda>r. id' r = i \<longrightarrow> \<not> waiting_reply r \<and> snoozed_reply_count r = Some 0)
            (comments (db (fst (unsnoozeComment i w))))"
    unfolding db_unsnoozeComment by (rule clearSnooze_rows)
  have 15: "list_all (\<lambda>r. id' r = i \<longrightarrow> waiting_reply r \<and> snoozed_reply_count r = Some (getReplyCount (db w) i))
            (comments (db (fst (snoozeComment i w))))"
    unfolding db_snoozeComment by (rule setSnooze_rows)
  show ?thesis
    by (intro conjI 1 2 3 4 5 6 7 8 9 10 11 12 13 14 15)
qed

theorem snooze_invariant_preserved_witness:
  "snoozeInvariant (db exampleWorld)
   \<and> snoozeInvariant (db (fst (unsnoozeComment 100 exampleWorld)))
   \<and> comments (db (fst (unsnoozeComment 100 exampleWorld))) =
         [exampleRow\<lparr>waiting_reply := False, snoozed_reply_count := Some 0\<rparr>]
   \<and> snoozeInvariant (db (fst (snoozeComment 100 exampleWorld)))
   \<and> snoozeInvariant (db (fst (unsnoozeAll exampleWorld)))
   \<and> snoozeInvariant (fst (upsertComment exampleComment None ''2025-10-03T08:00:00.000Z'' (db exampleWorld)))"
proof -
  have h: "snoozeInvariant (db exampleWorld)"
    by (simp add: snoozeInvariant_def exampleWorld_def exampleStore_def exampleRow_def)
  note t = snooze_invariant_preserved[OF h, where i = 100 and c = exampleComment and info = None
      and now = "''2025-10-03T08:00:00.000Z''"]
  have 1: "snoozeInvariant (db (fst (unsnoozeComment 100 exampleWorld)))"
    by (rule t[THEN conjunct2, THEN conjunct2, THEN conjunct2, THEN conjunct2, THEN conjunct2, THEN conjunct2, THEN conjunct1])
  have 2: "snoozeInvariant (db (fst (snoozeComment 100 exampleWorld)))"
    by (rule t[THEN conjunct2, THEN conjunct2, THEN conjunct2, THEN conjunct2, THEN conjunct2, THEN conjunct1])
  have 3: "snoozeInvariant (db (fst (unsnoozeAll exampleWorld)))"
    by (rule t[THEN conjunct2, THEN conjunct2, THEN conjunct2, THEN conjunct2, THEN conjunct2, THEN conjunct2, THEN conjunct2, THEN conjunct1])
  have 4: "snoozeInvariant (fst (upsertComment exampleComment None ''2025-10-03T08:00:00.000Z''
                     (db exampleWorld)))"
    by (rule t[THEN conjunct1])
  have 5: "comments (db (fst (unsnoozeComment 100 exampleWorld))) =
         [exampleRow\<lparr>waiting_reply := False, snoozed_reply_count := Some 0\<rparr>]"
    by (simp add: db_unsnoozeComment clearSnooze_def exampleWorld_def exampleStore_def exampleRow_def)
  show ?thesis by (intro conjI h 1 5 2 3 4)
qed

subsection \<open>Console and requests\<close>

lemma out_say [simp]: "out (say l w) = out w @ [l]" by (simp add: say_def)
lemma out_sayAll [simp]: "out (sayAll ls w) = out w @ ls" by (simp add: sayAll_def)
lemma out_request [simp]: "out (request c w) = out w" by (simp add: request_def)
lemma out_deferLog [simp]: "out (deferLog l w) = out w" by (simp add: deferLog_def)
lemma out_dispose [simp]: "out (dispose w) = out w @ deferredLogs w" by (simp add: dispose_def sayAll_def)
lemma out_onStore [simp]: "out (onStore f w) = out w" by (simp add: onStore_def)

lemma calls_say [simp]: "calls (say l w) = calls w" by (simp add: say_def)
lemma calls_sayAll [simp]: "calls (sayAll ls w) = calls w" by (simp add: sayAll_def)
lemma calls_request [simp]: "calls (request c w) = calls w @ [c]" by (simp add: request_def)
lemma calls_deferLog [simp]: "calls (deferLog l w) = calls w" by (simp add: deferLog_def)
lemma calls_dispose [simp]: "calls (dispose w) = calls w" by (simp add: dispose_def sayAll_def)
lemma calls_onStore [simp]: "calls (onStore f w) = calls w" by (simp add: onStore_def)

lemma printedBy_append: "out w' = out w @ ls \<Longrightarrow> printedBy w w' = ls"
  by (simp add: printedBy_def)

lemma requestedBy_append: "calls w' = calls w @ cs \<Longrightarrow> requestedBy w w' = cs"
  by (simp add: requestedBy_def)

lemma find_fst_value:
  assumes "\<And>row. row \<in> set rows \<Longrightarrow> snd row = f (fst row)"
  shows "(case find (\<lambda>row. fst row = s) rows of None \<Rightarrow> 0 | Some row \<Rightarrow> snd row)
           = (if s \<in> fst ` set rows then f s else (0::int))"
proof (cases "find (\<lambda>row. fst row = s) rows")
  case None
  then have "s \<notin> fst ` set rows" by (auto simp: find_None_iff)
  with None show ?thesis by simp
next
  case (Some row)
  then have r: "row \<in> set rows" "fst row = s" by (auto simp: find_Some_iff)
  with assms[OF r(1)] Some show ?thesis by force
qed

lemma pendingCountOf_statusStats:
  "pendingCountOf s (statusStats d) = int (length (filter (\<lambda>r. severity r = s \<and> isPending r) (comments d)))"
proof -
  let ?cnt = "\<lambda>s. int (length (filter (\<lambda>r. severity r = s \<and> isPending r) (comments d)))"
  have val: "snd row = ?cnt (fst row)" if "row \<in> set (statusStats d)" for row
    using that by (auto simp: statusStats_def)
  have dom: "fst ` set (statusStats d) = severity ` set (comments d)"
    by (auto simp: statusStats_def image_iff)
  have "pendingCountOf s (statusStats d) = (if s \<in> fst ` set (statusStats d) then ?cnt s else 0)"
    unfolding pendingCountOf_def using val by (rule find_fst_value)
  also have "\<dots> = ?cnt s"
  proof (cases "s \<in> severity ` set (comments d)")
    case True
    then show ?thesis by (simp add: dom)
  next
    case False
    then have "filter (\<lambda>r. severity r = s \<and> isPending r) (comments d) = []"
      by (auto simp: filter_empty_conv)
    with False show ?thesis by (simp add: dom)
  qed
  finally show ?thesis .
qed

lemma criticalCount_eq: "pendingCountOf ''critical'' (statusStats d) = int (length (pendingCritical d))"
  by (simp only: pendingCountOf_statusStats pendingCritical_def)

lemma length_criticalItems: "length (criticalItems d) = min 5 (length (pendingCritical d))"
  by (simp add: criticalItems_def pendingCritical_def)

lemma set_criticalItems: "set (criticalItems d) \<subseteq> set (pendingCritical d)"
proof -
  have "set (take 5 (sort_key path (pendingCritical d))) \<subseteq> set (sort_key path (pendingCritical d))"
    by (rule set_take_subset)
  then show ?thesis by (simp add: criticalItems_def pendingCritical_def)
qed

lemma out_printCriticalPreview:
  "out (printCriticalPreview n w) =
     out w @ [Fetch (Out_critical_header n)]
       @ map (\<lambda>item. Fetch (Out_critical_item (id' item) (path item) (line item) (body item)))
             (criticalItems (db w))
       @ (if n > 5 then [Fetch (Out_critical_more (n - 5))] else [])
       @ [Fetch Out_critical_hint]"
  by (simp add: printCriticalPreview_def Let_def)

lemma out_printFetchSummary:
  "\<exists>t c m mi tr. out (printFetchSummary a b w) =
     out w @ [Fetch Out_current_status, Fetch (Out_pending t c m mi tr),
              Fetch (Out_threads_resolved_outdated a b)] @ previewLines (db w)"
proof -
  let ?n = "int (length (pendingCritical (db w)))"
  show ?thesis
  proof (cases "?n > 0")
    case True
    then show ?thesis
      unfolding printFetchSummary_def Let_def criticalCount_eq previewLines_def
      by (simp add: out_printCriticalPreview)
  next
    case False
    then show ?thesis
      unfolding printFetchSummary_def Let_def criticalCount_eq previewLines_def
      by simp
  qed
qed

lemma filter_items_preview:
  "filter isCriticalItem (previewLines d) =
     map (\<lambda>item. Fetch (Out_critical_item (id' item) (path item) (line item) (body item)))
         (if pendingCritical d = [] then [] else criticalItems d)"
  by (simp add: previewLines_def Let_def filter_map comp_def)

lemma filter_more_preview:
  "filter isCriticalMore (previewLines d) =
     (if length (pendingCritical d) > 5 then [Fetch (Out_critical_more (int (length (pendingCritical d)) - 5))]
      else [])"
  by (simp add: previewLines_def Let_def filter_map comp_def)

lemma filter_header_preview:
  "filter isCriticalHeader (previewLines d) =
     (if pendingCritical d = [] then [] else [Fetch (Out_critical_header (int (length (pendingCritical d))))])"
  by (simp add: previewLines_def Let_def filter_map comp_def)

lemma criticalItems_empty: "pendingCritical d = [] \<Longrightarrow> criticalItems d = []"
  by (simp add: criticalItems_def pendingCritical_def)

text \<open>
  C7. The summary printed after a sync contains the critical preview exactly when a
  pending comment of critical severity exists. The preview lists the first five
  pending critical comments in path order, so at most five items, and when more than
  five exist it has one line that states how many exist beyond the five; otherwise
  it has no such line.
\<close>

theorem critical_preview:
  "filter isCriticalHeader (printedBy w (printFetchSummary resolvedCount outdatedCount w)) =
      (if pendingCritical (db w) = [] then []
       else [Fetch (Out_critical_header (int (length (pendingCritical (db w)))))])
   \<and> ((\<exists>l \<in> set (printedBy w (printFetchSummary resolvedCount outdatedCount w)).
          isCriticalHeader l \<or> isCriticalItem l \<or> isCriticalMore l)
        \<longleftrightarrow> (\<exists>r \<in> set (comments (db w)). severity r = ''critical'' \<and> isPending r))
   \<and> filter isCriticalItem (printedBy w (printFetchSummary resolvedCount outdatedCount w)) =
        map (\<lambda>item. Fetch (Out_critical_item (id' item) (path item) (line item) (body item)))
            (criticalItems (db w))
   \<and> length (filter isCriticalItem (printedBy w (printFetchSummary resolvedCount outdatedCount w)))
        = min 5 (length (pendingCritical (db w)))
   \<and> set (criticalItems (db w)) \<subseteq> set (pendingCritical (db w))
   \<and> filter isCriticalMore (printedBy w (printFetchSummary resolvedCount outdatedCount w)) =
        (if length (pendingCritical (db w)) > 5
         then [Fetch (Out_critical_more (int (length (pendingCritical (db w))) - 5))] else [])"
proof -
  let ?new = "printedBy w (printFetchSummary resolvedCount outdatedCount w)"
  let ?d = "db w"
  from out_printFetchSummary[of resolvedCount outdatedCount w]
  obtain t c m mi tr where o: "out (printFetchSummary resolvedCount outdatedCount w) =
     out w @ [Fetch Out_current_status, Fetch (Out_pending t c m mi tr),
              Fetch (Out_threads_resolved_outdated resolvedCount outdatedCount)] @ previewLines ?d"
    by blast
  have new: "?new = [Fetch Out_current_status, Fetch (Out_pending t c m mi tr),
              Fetch (Out_threads_resolved_outdated resolvedCount outdatedCount)] @ previewLines ?d"
    using o by (rule printedBy_append)
  have h: "filter isCriticalHeader ?new =
      (if pendingCritical ?d = [] then [] else [Fetch (Out_critical_header (int (length (pendingCritical ?d))))])"
    unfolding new by (simp add: filter_header_preview)
  have i: "filter isCriticalItem ?new =
        map (\<lambda>item. Fetch (Out_critical_item (id' item) (path item) (line item) (body item))) (criticalItems ?d)"
    unfolding new by (simp add: filter_items_preview criticalItems_empty)
  have mo: "filter isCriticalMore ?new =
        (if length (pendingCritical ?d) > 5
         then [Fetch (Out_critical_more (int (length (pendingCritical ?d)) - 5))] else [])"
    unfolding new by (simp add: filter_more_preview)
  have len: "length (filter isCriticalItem ?new) = min 5 (length (pendingCritical ?d))"
    unfolding i by (simp add: length_criticalItems)
  have ex: "(\<exists>l \<in> set ?new. isCriticalHeader l \<or> isCriticalItem l \<or> isCriticalMore l)
        \<longleftrightarrow> (\<exists>r \<in> set (comments ?d). severity r = ''critical'' \<and> isPending r)"
  proof
    assume "\<exists>l \<in> set ?new. isCriticalHeader l \<or> isCriticalItem l \<or> isCriticalMore l"
    then have "filter isCriticalHeader ?new \<noteq> [] \<or> filter isCriticalItem ?new \<noteq> []
                 \<or> filter isCriticalMore ?new \<noteq> []"
      by (auto simp: filter_empty_conv)
    then have "pendingCritical ?d \<noteq> []"
      unfolding h i mo by (auto simp: criticalItems_empty split: if_splits)
    then show "\<exists>r \<in> set (comments ?d). severity r = ''critical'' \<and> isPending r"
      by (auto simp: pendingCritical_def filter_empty_conv)
  next
    assume "\<exists>r \<in> set (comments ?d). severity r = ''critical'' \<and> isPending r"
    then have "pendingCritical ?d \<noteq> []" by (auto simp: pendingCritical_def filter_empty_conv)
    with h have "filter isCriticalHeader ?new \<noteq> []" by simp
    then show "\<exists>l \<in> set ?new. isCriticalHeader l \<or> isCriticalItem l \<or> isCriticalMore l"
      by (auto simp: filter_empty_conv)
  qed
  show ?thesis by (intro conjI h ex i len set_criticalItems mo)
qed


theorem critical_preview_witness:
  "length (pendingCritical (db sixCriticalWorld)) = 6
   \<and> filter isCriticalHeader (printedBy sixCriticalWorld (printFetchSummary 0 0 sixCriticalWorld))
        = [Fetch (Out_critical_header 6)]
   \<and> length (filter isCriticalItem (printedBy sixCriticalWorld (printFetchSummary 0 0 sixCriticalWorld))) = 5
   \<and> filter isCriticalMore (printedBy sixCriticalWorld (printFetchSummary 0 0 sixCriticalWorld))
        = [Fetch (Out_critical_more 1)]
   \<and> filter isCriticalHeader (printedBy exampleWorld (printFetchSummary 0 0 exampleWorld)) = []
   \<and> filter isCriticalItem (printedBy exampleWorld (printFetchSummary 0 0 exampleWorld)) = []"
proof -
  have n: "length (pendingCritical (db sixCriticalWorld)) = 6"
    by (simp add: pendingCritical_def sixCriticalWorld_def criticalRow_def exampleRow_def isPending_def)
  then have ne: "pendingCritical (db sixCriticalWorld) \<noteq> []" by auto
  have z: "pendingCritical (db exampleWorld) = []"
    by (simp add: pendingCritical_def exampleWorld_def exampleStore_def exampleRow_def)
  note t = critical_preview[of sixCriticalWorld 0 0]
  note u = critical_preview[of exampleWorld 0 0]
  have 1: "filter isCriticalHeader (printedBy sixCriticalWorld (printFetchSummary 0 0 sixCriticalWorld))
        = [Fetch (Out_critical_header 6)]"
    using t[THEN conjunct1] ne n by simp
  have 2: "length (filter isCriticalItem (printedBy sixCriticalWorld (printFetchSummary 0 0 sixCriticalWorld))) = 5"
    using t[THEN conjunct2, THEN conjunct2, THEN conjunct2, THEN conjunct1] n by simp
  have 3: "filter isCriticalMore (printedBy sixCriticalWorld (printFetchSummary 0 0 sixCriticalWorld))
        = [Fetch (Out_critical_more 1)]"
    using t[THEN conjunct2, THEN conjunct2, THEN conjunct2, THEN conjunct2, THEN conjunct2] n by simp
  have 4: "filter isCriticalHeader (printedBy exampleWorld (printFetchSummary 0 0 exampleWorld)) = []"
    using u[THEN conjunct1] z by simp
  have 5: "filter isCriticalItem (printedBy exampleWorld (printFetchSummary 0 0 exampleWorld)) = []"
    using u[THEN conjunct2, THEN conjunct2, THEN conjunct1] z by (simp add: criticalItems_empty)
  show ?thesis by (intro conjI n 1 2 3 4 5)
qed

subsection \<open>The figures of the sync summary\<close>

text \<open>
  With distinct comment ids in the metadata, the thread map is the list of the
  entries of all threads, and the first figure is the total number of comments of
  the resolved threads.
\<close>

lemma mapSet_fresh: "k \<notin> fst ` set m \<Longrightarrow> mapSet k v m = m @ [(k, v)]"
  by (induction m) auto

lemma fold_mapSet_fresh:
  "distinct (map fst es) \<Longrightarrow> fst ` set es \<inter> fst ` set m = {} \<Longrightarrow>
     fold (\<lambda>e acc. mapSet (fst e) (snd e) acc) es m = m @ es"
proof (induction es arbitrary: m)
  case Nil
  then show ?case by simp
next
  case (Cons e es)
  have f: "fst e \<notin> fst ` set m" using Cons.prems(2) by auto
  have d: "distinct (map fst es)" using Cons.prems(1) by simp
  have i: "fst ` set es \<inter> fst ` set (m @ [e]) = {}" using Cons.prems by auto
  have "fold (\<lambda>e acc. mapSet (fst e) (snd e) acc) (e # es) m
          = fold (\<lambda>e acc. mapSet (fst e) (snd e) acc) es (m @ [(fst e, snd e)])"
    using f by (simp add: mapSet_fresh)
  also have "\<dots> = (m @ [e]) @ es" using Cons.IH[OF d i] by simp
  finally show ?case by simp
qed

lemma recordThread_entries:
  "recordThread thread m = fold (\<lambda>e acc. mapSet (fst e) (snd e) acc) (threadEntries thread) m"
  by (simp add: recordThread_def threadEntries_def fold_map comp_def)

lemma fst_threadEntries: "map fst (threadEntries thread) = map databaseId (node_comments thread)"
  by (simp add: threadEntries_def comp_def)

lemma recordThreads_fresh:
  "distinct (concat (map (\<lambda>t. map databaseId (node_comments t)) threads)) \<Longrightarrow>
   set (concat (map (\<lambda>t. map databaseId (node_comments t)) threads)) \<inter> fst ` set m = {} \<Longrightarrow>
     recordThreads threads m = m @ concat (map threadEntries threads)"
proof (induction threads arbitrary: m)
  case Nil
  then show ?case by (simp add: recordThreads_def)
next
  case (Cons t ts)
  have d1: "distinct (map fst (threadEntries t))"
    using Cons.prems(1) by (simp add: fst_threadEntries)
  have i1: "fst ` set (threadEntries t) \<inter> fst ` set m = {}"
  proof -
    have "fst ` set (threadEntries t) = set (map databaseId (node_comments t))"
      using fst_threadEntries[of t] by (metis set_map)
    with Cons.prems(2) show ?thesis by auto
  qed
  have step: "recordThread t m = m @ threadEntries t"
    unfolding recordThread_entries using d1 i1 by (rule fold_mapSet_fresh)
  have d2: "distinct (concat (map (\<lambda>t. map databaseId (node_comments t)) ts))"
    using Cons.prems(1) by simp
  have i2: "set (concat (map (\<lambda>t. map databaseId (node_comments t)) ts)) \<inter> fst ` set (m @ threadEntries t) = {}"
  proof -
    define S where "S = set (concat (map (\<lambda>t. map databaseId (node_comments t)) ts))"
    define A where "A = set (map databaseId (node_comments t))"
    have fe: "fst ` set (threadEntries t) = A"
      unfolding A_def using fst_threadEntries[of t] by (metis set_map)
    have un: "fst ` set (m @ threadEntries t) = fst ` set m \<union> A"
      using fe by (simp add: image_Un)
    have p1: "A \<inter> S = {}" using Cons.prems(1) by (simp add: A_def S_def)
    have p2: "S \<inter> fst ` set m = {}" using Cons.prems(2) by (auto simp: S_def)
    from p1 p2 have "S \<inter> (fst ` set m \<union> A) = {}" by blast
    then show ?thesis unfolding un S_def .
  qed
  have "recordThreads (t # ts) m = recordThreads ts (m @ threadEntries t)"
    by (simp add: recordThreads_def step)
  also have "\<dots> = (m @ threadEntries t) @ concat (map threadEntries ts)"
    using d2 i2 by (rule Cons.IH)
  finally show ?case by simp
qed

lemma resolved_entries: "filter isResolved (map snd (threadEntries t)) =
    (if node_isResolved t then map snd (threadEntries t) else [])"
  by (simp add: threadEntries_def filter_map comp_def)

lemma resolvedCount_concat:
  "length (filter isResolved (map snd (concat (map threadEntries threads)))) =
     length (concat (map node_comments (filter node_isResolved threads)))"
proof (induction threads)
  case Nil
  then show ?case by simp
next
  case (Cons t ts)
  have "length (map snd (threadEntries t)) = length (node_comments t)" by (simp add: threadEntries_def)
  with Cons show ?case by (simp add: resolved_entries)
qed

lemma resolvedCount_counts_comments:
  assumes "distinct (concat (map (\<lambda>t. map databaseId (node_comments t)) threads))"
  shows "resolvedCountOf (recordThreads threads []) =
           length (concat (map node_comments (filter node_isResolved threads)))"
proof -
  have h: "recordThreads threads [] = concat (map threadEntries threads)"
    using recordThreads_fresh[OF assms, of "[]"] by simp
  show ?thesis unfolding resolvedCountOf_def mapValues_def h by (rule resolvedCount_concat)
qed

lemma fetchThreadMetadata_one_page:
  "fst (fetchThreadMetadata pr [PageOk threads None] w) = Some (recordThreads threads [])"
  by (simp add: fetchThreadMetadata_def Let_def)

text \<open>
  C9. The summary line reads "threads resolved" and "comments outdated". Both figures
  count entries of the thread map, which has one entry per comment: the second is the
  number of outdated entries, the first is the number of comments that belong to a
  resolved thread, not the number of resolved threads. For a fetch whose metadata has
  one resolved thread with two comments the tool prints 2 where one thread is
  resolved.
\<close>

theorem threads_resolved_figure_counts_comments:
  "fst (fetchThreadMetadata DEFAULT_PR (net_pages exampleNet) emptyWorld) =
      Some [(100, \<lparr>threadId = ''T1'', isResolved = True, isOutdated = False\<rparr>),
            (101, \<lparr>threadId = ''T1'', isResolved = True, isOutdated = False\<rparr>)]
   \<and> length (remdups (map node_id (filter node_isResolved [exampleThreadNode]))) = 1
   \<and> resolvedCountOf [(100, \<lparr>threadId = ''T1'', isResolved = True, isOutdated = False\<rparr>),
                        (101, \<lparr>threadId = ''T1'', isResolved = True, isOutdated = False\<rparr>)] = 2
   \<and> Fetch (Out_threads_resolved_outdated 2 0)
         \<in> set (out (fst (fetchComments DEFAULT_PR exampleNet emptyWorld)))"
proof -
  have metadata: "fst (fetchThreadMetadata DEFAULT_PR (net_pages exampleNet) emptyWorld) =
      Some [(100, \<lparr>threadId = ''T1'', isResolved = True, isOutdated = False\<rparr>),
            (101, \<lparr>threadId = ''T1'', isResolved = True, isOutdated = False\<rparr>)]"
    by (simp add: fetchThreadMetadata_def exampleNet_def exampleThreadNode_def Let_def
        recordThreads_def recordThread_def)
  have threads: "length (remdups (map node_id (filter node_isResolved [exampleThreadNode]))) = 1"
    by (simp add: exampleThreadNode_def)
  have figure: "resolvedCountOf [(100, \<lparr>threadId = ''T1'', isResolved = True, isOutdated = False\<rparr>),
                        (101, \<lparr>threadId = ''T1'', isResolved = True, isOutdated = False\<rparr>)] = 2"
    by (simp add: resolvedCountOf_def mapValues_def)
  have printed: "Fetch (Out_threads_resolved_outdated 2 0)
         \<in> set (out (fst (fetchComments DEFAULT_PR exampleNet emptyWorld)))"
    by code_simp
  show ?thesis by (intro conjI metadata threads figure printed)
qed

subsection \<open>Resolving and unresolving\<close>

text \<open>
  C5. Resolve and unresolve on a comment whose thread id is null end the process with
  exit code 1 after printing the warning and the advice to fetch; no request has
  been sent to the provider and the store is as before.
\<close>

theorem missing_thread_id_aborts:
  assumes "getComment (db w) i = Some comment" and "thread_id comment = None"
  shows "snd (resolveComment i commit replyMessage rnet mnet w) = Exited 1
       \<and> db (fst (resolveComment i commit replyMessage rnet mnet w)) = db w
       \<and> requestedBy w (fst (resolveComment i commit replyMessage rnet mnet w)) = []
       \<and> printedBy w (fst (resolveComment i commit replyMessage rnet mnet w)) =
            [Resolve (Out_no_thread_id ''resolve'' i), Resolve Out_try_fetch]
       \<and> snd (unresolveComment i mnet w) = Exited 1
       \<and> db (fst (unresolveComment i mnet w)) = db w
       \<and> requestedBy w (fst (unresolveComment i mnet w)) = []
       \<and> printedBy w (fst (unresolveComment i mnet w)) =
            [Resolve (Out_no_thread_id ''unresolve'' i), Resolve Out_try_fetch]"
  using assms
  by (simp add: resolveComment_def unresolveComment_def truthyString_def printedBy_def requestedBy_def)

theorem missing_thread_id_aborts_witness:
  "getComment (db exampleWorld) 100 = Some exampleRow \<and> thread_id exampleRow = None
   \<and> resolveComment 100 (Some ''abc123'') (Some ''Fixed.'') exampleReplyNet
         (exampleMutateNet notFoundAnswer) exampleWorld =
       (exampleWorld\<lparr>out := [Resolve (Out_no_thread_id ''resolve'' 100), Resolve Out_try_fetch]\<rparr>, Exited 1)
   \<and> snd (unresolveComment 100 (exampleMutateNet notFoundAnswer) exampleWorld) = Exited 1
   \<and> db (fst (unresolveComment 100 (exampleMutateNet notFoundAnswer) exampleWorld)) = exampleStore
   \<and> requestedBy exampleWorld (fst (unresolveComment 100 (exampleMutateNet notFoundAnswer) exampleWorld)) = []"
proof -
  have g: "getComment (db exampleWorld) 100 = Some exampleRow"
    by (simp add: getComment_def exampleWorld_def exampleStore_def exampleRow_def)
  have n: "thread_id exampleRow = None" by (simp add: exampleRow_def)
  note t = missing_thread_id_aborts[OF g n, of "Some ''abc123''" "Some ''Fixed.''" exampleReplyNet
      "exampleMutateNet notFoundAnswer"]
  let ?r = "resolveComment 100 (Some ''abc123'') (Some ''Fixed.'') exampleReplyNet
         (exampleMutateNet notFoundAnswer) exampleWorld"
  have e: "exampleWorld = \<lparr> db = exampleStore, calls = [], out = [], deferredLogs = [] \<rparr>"
    by (simp add: exampleWorld_def)
  have 1: "snd ?r = Exited 1" by (rule t[THEN conjunct1])
  have 2: "db (fst ?r) = db exampleWorld" by (rule t[THEN conjunct2, THEN conjunct1])
  have 3: "snd (unresolveComment 100 (exampleMutateNet notFoundAnswer) exampleWorld) = Exited 1"
    by (rule t[THEN conjunct2, THEN conjunct2, THEN conjunct2, THEN conjunct2, THEN conjunct1])
  have 4: "db (fst (unresolveComment 100 (exampleMutateNet notFoundAnswer) exampleWorld)) = exampleStore"
    using t[THEN conjunct2, THEN conjunct2, THEN conjunct2, THEN conjunct2, THEN conjunct2, THEN conjunct1]
    by (simp add: exampleWorld_def)
  have 5: "requestedBy exampleWorld (fst (unresolveComment 100 (exampleMutateNet notFoundAnswer) exampleWorld)) = []"
    by (rule t[THEN conjunct2, THEN conjunct2, THEN conjunct2, THEN conjunct2, THEN conjunct2,
              THEN conjunct2, THEN conjunct1])
  have 6: "?r = (exampleWorld\<lparr>out := [Resolve (Out_no_thread_id ''resolve'' 100), Resolve Out_try_fetch]\<rparr>,
                 Exited 1)"
    using g n 1 by (simp add: resolveComment_def truthyString_def say_def e)
  show ?thesis by (intro conjI g n 6 3 4 5)
qed








lemma resolveThreadOnGitHub_outcome:
  assumes "t \<noteq> []"
  shows "resolveThreadOnGitHub t answer w =
     (if \<not> mutationFailed ''resolve'' answer then Succeeded
      else if notFoundClass answer then Stale else Failed,
      say (Mutation (if \<not> mutationFailed ''resolve'' answer then Out_thread_done ''resolve'' t
                     else if notFoundClass answer then Out_thread_stale t
                     else (case answer of Answered r \<Rightarrow> Out_thread_failed ''resolve'' t
                           | Threw s \<Rightarrow> Out_thread_error ''resolve'')))
        (request (Call_mutation ''resolve'' t) w))"
proof (cases answer)
  case (Answered r)
  with assms show ?thesis
    by (simp add: resolveThreadOnGitHub_def executeGraphQLMutation_def Let_def confirms_def)
next
  case (Threw s)
  with assms show ?thesis
    by (cases s) (simp_all add: resolveThreadOnGitHub_def executeGraphQLMutation_def Let_def)
qed

text \<open>
  \<^verbatim>\<open>executeGraphQLMutation\<close> looks at the returned thread before it looks at
  \<^verbatim>\<open>errors\<close>: for a thread id that is not empty the outcome is success exactly
  when the answer confirms the requested state, whatever errors it carries.
\<close>

lemma resolve_succeeds_iff_confirmed:
  assumes "t \<noteq> []"
  shows "(fst (resolveThreadOnGitHub t answer w) = Succeeded) = (\<not> mutationFailed ''resolve'' answer)"
  unfolding resolveThreadOnGitHub_outcome[OF assms] by simp




subsection \<open>Verifying an outdated comment\<close>

lemma elapsedGap_eq:
  "elapsedGap m t = (if m - t < 3600000 then Minutes ((m - t) div 60000) else Hours ((m - t) div 3600000))"
proof -
  have a: "((m - t) div 60000 < 60) = (m - t < 3600000)" by linarith
  have "(m - t) div (60000 * 60) = (m - t) div 60000 div 60"
    by (rule zdiv_zmult2_eq) simp
  then have b: "(m - t) div 60000 div 60 = (m - t) div 3600000" by simp
  show ?thesis unfolding elapsedGap_def Let_def a b ..
qed

text \<open>
  C8. For a stored comment that is not resolved, whose file exists and whose
  \<open>first_seen\<close> is a valid date, the verify operation prints the "modified after
  comment" line exactly when the last modification of the file is strictly after
  \<open>first_seen\<close>; the line carries the gap in minutes when it is under 60 minutes and
  in whole hours otherwise. When the file is not newer it prints the negative line.
  The store is unchanged.
\<close>

theorem verify_likely_addressed:
  assumes "getComment (db w) i = Some comment" and "\<not> github_resolved comment"
    and "file_exists env (path comment)" and "date_time env (first_seen comment) = Some t"
  shows "snd (verifyOutdated i env w) = Returned
       \<and> db (fst (verifyOutdated i env w)) = db w
       \<and> filter isModifiedAfter (printedBy w (fst (verifyOutdated i env w))) =
            (if file_lastModified env (path comment) > t
             then [Verify (Out_modified_after
                     (if file_lastModified env (path comment) - t < 3600000
                      then Minutes ((file_lastModified env (path comment) - t) div 60000)
                      else Hours ((file_lastModified env (path comment) - t) div 3600000)))]
             else [])
       \<and> (Verify Out_not_modified_after \<in> set (printedBy w (fst (verifyOutdated i env w)))
            \<longleftrightarrow> \<not> file_lastModified env (path comment) > t)"
  using assms
  by (simp add: verifyOutdated_def showComment_def Let_def isFileDeleted_def getFileModifiedTime_def
      printedBy_def elapsedGap_eq split: option.splits)

theorem verify_likely_addressed_witness:
  "getComment (db exampleWorld) 100 = Some exampleRow \<and> \<not> github_resolved exampleRow
   \<and> file_exists (examplePlatform 2700000) (path exampleRow)
   \<and> date_time (examplePlatform 2700000) (first_seen exampleRow) = Some 1759312800000
   \<and> filter isModifiedAfter (printedBy exampleWorld (fst (verifyOutdated 100 (examplePlatform 2700000) exampleWorld)))
        = [Verify (Out_modified_after (Minutes 45))]
   \<and> filter isModifiedAfter (printedBy exampleWorld (fst (verifyOutdated 100 (examplePlatform 10800000) exampleWorld)))
        = [Verify (Out_modified_after (Hours 3))]
   \<and> filter isModifiedAfter (printedBy exampleWorld (fst (verifyOutdated 100 (examplePlatform 0) exampleWorld)))
        = []"
proof -
  have g: "getComment (db exampleWorld) 100 = Some exampleRow"
    by (simp add: getComment_def exampleWorld_def exampleStore_def exampleRow_def)
  have r: "\<not> github_resolved exampleRow" by (simp add: exampleRow_def)
  have e: "file_exists (examplePlatform k) (path exampleRow)" for k
    by (simp add: examplePlatform_def exampleRow_def)
  have d: "date_time (examplePlatform k) (first_seen exampleRow) = Some 1759312800000" for k
    by (simp add: examplePlatform_def exampleRow_def)
  have m: "file_lastModified (examplePlatform k) (path exampleRow) = 1759312800000 + k" for k
    by (simp add: examplePlatform_def)
  note t = verify_likely_addressed[OF g r e d, THEN conjunct2, THEN conjunct2, THEN conjunct1]
  have 1: "filter isModifiedAfter (printedBy exampleWorld (fst (verifyOutdated 100 (examplePlatform 2700000) exampleWorld)))
        = [Verify (Out_modified_after (Minutes 45))]"
    using t[of 2700000] by (simp add: m)
  have 2: "filter isModifiedAfter (printedBy exampleWorld (fst (verifyOutdated 100 (examplePlatform 10800000) exampleWorld)))
        = [Verify (Out_modified_after (Hours 3))]"
    using t[of 10800000] by (simp add: m)
  have 3: "filter isModifiedAfter (printedBy exampleWorld (fst (verifyOutdated 100 (examplePlatform 0) exampleWorld)))
        = []"
    using t[of 0] by (simp add: m)
  show ?thesis by (intro conjI g r e d 1 2 3)
qed

end
